theory Spec2Isabelle
  imports Complex_Main "HOL-Library.Char_ord" "HOL-Library.List_Lexorder"
begin

section \<open>Background removal pipeline of rekrea (remover.py)\<close>

text \<open>
  The module drives three external collaborators: the file system (through pathlib and
  tempfile), ffmpeg (through ffmpeg-python) and rembg. The functions of remover.py are
  embedded as state-passing functions on a \<open>world\<close> (the file system and a chronological
  trace of the external operations the code invokes). What the collaborators answer is a
  parameter, the record \<open>env\<close>. Every raise of the source is a value \<open>Inl e\<close>.
\<close>

subsection \<open>Exceptions\<close>

text \<open>
  The Python exceptions that can leave the functions of remover.py. The module defines no
  exception class of its own and has no \<open>try\<close>/\<open>except\<close>: built-in exceptions raised by
  its own expressions are constructors, and an exception raised inside a library call
  (ffmpeg.probe, ffmpeg's run, rembg's new_session and remove) or inside the progress
  callback is \<open>External c\<close>, where \<open>c\<close> is the name of its class.
\<close>

datatype pyexn =
    StopIteration
  | KeyError
  | ValueError
  | ZeroDivisionError
  | FileExistsError
  | FileNotFoundError
  | NotADirectoryError
  | IsADirectoryError
  | External string

fun exn_class :: "pyexn \<Rightarrow> string" where
  "exn_class StopIteration = ''StopIteration''"
| "exn_class KeyError = ''KeyError''"
| "exn_class ValueError = ''ValueError''"
| "exn_class ZeroDivisionError = ''ZeroDivisionError''"
| "exn_class FileExistsError = ''FileExistsError''"
| "exn_class FileNotFoundError = ''FileNotFoundError''"
| "exn_class NotADirectoryError = ''NotADirectoryError''"
| "exn_class IsADirectoryError = ''IsADirectoryError''"
| "exn_class (External c) = c"

subsection \<open>Paths and the file system\<close>

text \<open>
  A \<open>Path\<close> is its list of components; \<open>p / name\<close> is \<open>p @ [name]\<close> and \<open>p.name\<close> is
  \<open>last p\<close>. The file system is an association list from paths to nodes, read with
  \<open>map_of\<close>; the root \<open>[]\<close> is always a directory. Permissions, links and
  devices are not modelled.
\<close>

type_synonym path = "string list"
type_synonym bytes = string

datatype node = File bytes | Dir

type_synonym filesystem = "(path \<times> node) list"

definition lookup :: "filesystem \<Rightarrow> path \<Rightarrow> node option" where
  "lookup fsys p = (if p = [] then Some Dir else map_of fsys p)"

definition is_file :: "filesystem \<Rightarrow> path \<Rightarrow> bool" where
  "is_file fsys p = (case lookup fsys p of Some (File b) \<Rightarrow> True | _ \<Rightarrow> False)"

definition is_dir :: "filesystem \<Rightarrow> path \<Rightarrow> bool" where
  "is_dir fsys p = (lookup fsys p = Some Dir)"

text \<open>The proper, non-empty prefixes of a path: its ancestors below the root.\<close>

definition ancestors :: "path \<Rightarrow> path list" where
  "ancestors p = map (\<lambda>k. take k p) [1..<length p]"

definition add_dir :: "path \<Rightarrow> filesystem \<Rightarrow> filesystem" where
  "add_dir p fsys = (if lookup fsys p = None then fsys @ [(p, Dir)] else fsys)"

text \<open>
  \<open>Path.mkdir(parents=True, exist_ok=True)\<close>: creates the directory and its missing
  ancestors; an existing directory is accepted; raises when an ancestor is a regular
  file (NotADirectoryError) or the path itself is one (FileExistsError).
\<close>

definition mkdir_parents :: "path \<Rightarrow> filesystem \<Rightarrow> pyexn + filesystem" where
  "mkdir_parents p fsys =
     (if list_ex (is_file fsys) (ancestors p) then Inl NotADirectoryError
      else if is_file fsys p then Inl FileExistsError
      else Inr (foldl (\<lambda>f q. add_dir q f) fsys (ancestors p @ [p])))"

text \<open>\<open>Path.read_bytes()\<close>.\<close>

definition read_bytes :: "path \<Rightarrow> filesystem \<Rightarrow> pyexn + bytes" where
  "read_bytes p fsys =
     (case lookup fsys p of
        None \<Rightarrow> Inl FileNotFoundError
      | Some Dir \<Rightarrow> Inl IsADirectoryError
      | Some (File b) \<Rightarrow> Inr b)"

text \<open>Creating or replacing a regular file.\<close>

definition put_file :: "path \<Rightarrow> bytes \<Rightarrow> filesystem \<Rightarrow> filesystem" where
  "put_file p b fsys = (p, File b) # filter (\<lambda>(q, n). q \<noteq> p) fsys"

text \<open>\<open>Path.write_bytes(data)\<close>: creates or replaces the file; its directory must exist.\<close>

definition write_bytes :: "path \<Rightarrow> bytes \<Rightarrow> filesystem \<Rightarrow> pyexn + filesystem" where
  "write_bytes p b fsys =
     (if p = [] \<or> is_dir fsys p then Inl IsADirectoryError
      else if is_file fsys (butlast p) then Inl NotADirectoryError
      else if \<not> is_dir fsys (butlast p) then Inl FileNotFoundError
      else Inr (put_file p b fsys))"

text \<open>The names of the entries a directory holds (files and directories alike).\<close>

definition children :: "filesystem \<Rightarrow> path \<Rightarrow> string list" where
  "children fsys d =
     remdups (map (\<lambda>(p, n). last p) (filter (\<lambda>(p, n). p \<noteq> [] \<and> butlast p = d) fsys))"

text \<open>The names of the regular files a directory holds, as a set.\<close>

definition file_names :: "filesystem \<Rightarrow> path \<Rightarrow> string set" where
  "file_names fsys d = {n. is_file fsys (d @ [n])}"

text \<open>
  The pattern \<open>frame_*.png\<close> of \<open>Path.glob\<close>: the star matches any run of characters,
  the empty one too.
\<close>

definition matches_frame_pattern :: "string \<Rightarrow> bool" where
  "matches_frame_pattern n =
     (10 \<le> length n \<and> take 6 n = ''frame_'' \<and> drop (length n - 4) n = ''.png'')"

text \<open>
  \<open>sorted(frames_dir.glob("frame_*.png"))\<close>: the matching entries of the directory, as
  paths. Paths of one directory compare by their last component, and Python compares
  strings lexicographically by code point, as \<open>List_Lexorder\<close> with \<open>Char_ord\<close> does.
  A directory that does not exist has no entries.
\<close>

definition sorted_glob :: "filesystem \<Rightarrow> path \<Rightarrow> path list" where
  "sorted_glob fsys d = map (\<lambda>n. d @ [n]) (sort (filter matches_frame_pattern (children fsys d)))"

text \<open>\<open>shutil.rmtree\<close>: the directory and everything below it.\<close>

definition rmtree :: "path \<Rightarrow> filesystem \<Rightarrow> filesystem" where
  "rmtree d fsys = filter (\<lambda>(p, n). take (length d) p \<noteq> d) fsys"

text \<open>The regular files of a directory with their contents, in the order of their names.\<close>

definition dir_files :: "filesystem \<Rightarrow> path \<Rightarrow> (string \<times> bytes) list" where
  "dir_files fsys d =
     List.map_filter
       (\<lambda>n. case lookup fsys (d @ [n]) of Some (File b) \<Rightarrow> Some (n, b) | _ \<Rightarrow> None)
       (sort (children fsys d))"

subsection \<open>The world and the collaborators\<close>

type_synonym session = nat
type_synonym stream = "(string \<times> string) list"

text \<open>
  The external operations the code invokes, in the order it invokes them. An event is
  recorded when the operation is called, whether it then succeeds or raises.
\<close>

datatype event =
    Mkdir path
  | Glob path
  | NewSession string
  | ReadBytes path
  | Remove session bytes
  | WriteBytes path bytes
  | Callback nat nat
  | Probe path
  | FfmpegExtract path path
  | FfmpegEncode path path rat
  | Mkdtemp path
  | Cleanup path

record world =
  fs :: filesystem
  trace :: "event list"

definition record_event :: "event \<Rightarrow> world \<Rightarrow> world" where
  "record_event ev w = w\<lparr>trace := trace w @ [ev]\<rparr>"

text \<open>
  What the collaborators answer. \<open>ffmpeg_probe\<close> is \<open>ffmpeg.probe(...)["streams"]\<close> on
  what the video path holds; \<open>py_int\<close> is Python's \<open>int\<close> on a string (None: ValueError);
  \<open>ffmpeg_decode\<close> is the frames ffmpeg writes for a video and the error of a failed run;
  \<open>new_session\<close> and \<open>rembg_remove\<close> are rembg's; \<open>ffmpeg_encode\<close> is the video ffmpeg
  makes of the files of a directory at a framerate; \<open>gettempdir\<close> and \<open>candidate_names\<close>
  are tempfile's directory and the random names it tries.
\<close>

record env =
  ffmpeg_probe :: "node option \<Rightarrow> pyexn + stream list"
  py_int :: "string \<Rightarrow> int option"
  ffmpeg_decode :: "node option \<Rightarrow> bytes list \<times> pyexn option"
  new_session :: "string \<Rightarrow> pyexn + session"
  rembg_remove :: "session \<Rightarrow> bytes \<Rightarrow> pyexn + bytes"
  ffmpeg_encode :: "(string \<times> bytes) list \<Rightarrow> rat \<Rightarrow> pyexn + bytes"
  gettempdir :: path
  candidate_names :: "string list"

text \<open>
  The progress callback: absent, or a function of \<open>(current, total)\<close> that returns
  (None) or raises.
\<close>

type_synonym callback = "(nat \<Rightarrow> nat \<Rightarrow> pyexn option) option"

subsection \<open>\<open>_get_video_framerate\<close>\<close>

text \<open>\<open>str.split(sep)\<close> for a separator of one character.\<close>

fun split_on :: "char \<Rightarrow> string \<Rightarrow> string list" where
  "split_on c [] = [[]]"
| "split_on c (x # xs) =
     (if x = c then [] # split_on c xs
      else (case split_on c xs of [] \<Rightarrow> [[x]] | h # t \<Rightarrow> (x # h) # t))"

text \<open>
  \<open>next(s for s in probe["streams"] if s["codec_type"] == "video")\<close>: the first video
  stream; KeyError at a stream without the key, StopIteration when the streams run out.
\<close>

fun first_video_stream :: "stream list \<Rightarrow> pyexn + stream" where
  "first_video_stream [] = Inl StopIteration"
| "first_video_stream (s # ss) =
     (case map_of s ''codec_type'' of
        None \<Rightarrow> Inl KeyError
      | Some c \<Rightarrow> if c = ''video'' then Inr s else first_video_stream ss)"

text \<open>
  \<open>num, den = video_stream["r_frame_rate"].split("/")\<close> and \<open>int(num) / int(den)\<close>.
  The quotient is a Python float; it is modelled by the exact rational, its rounding
  left out.
\<close>

definition parse_frame_rate :: "env \<Rightarrow> string \<Rightarrow> pyexn + rat" where
  "parse_frame_rate E r =
     (case split_on CHR ''/'' r of
        [num, den] \<Rightarrow>
          (case py_int E num of
             None \<Rightarrow> Inl ValueError
           | Some n \<Rightarrow>
               (case py_int E den of
                  None \<Rightarrow> Inl ValueError
                | Some d \<Rightarrow> if d = 0 then Inl ZeroDivisionError else Inr (Fract n d)))
      | _ \<Rightarrow> Inl ValueError)"

definition get_video_framerate :: "env \<Rightarrow> filesystem \<Rightarrow> path \<Rightarrow> pyexn + rat" where
  "get_video_framerate E fsys video_path =
     (case ffmpeg_probe E (lookup fsys video_path) of
        Inl e \<Rightarrow> Inl e
      | Inr streams \<Rightarrow>
          (case first_video_stream streams of
             Inl e \<Rightarrow> Inl e
           | Inr video_stream \<Rightarrow>
               (case map_of video_stream ''r_frame_rate'' of
                  None \<Rightarrow> Inl KeyError
                | Some r \<Rightarrow> parse_frame_rate E r)))"

subsection \<open>\<open>extract_frames\<close>\<close>

text \<open>The output pattern \<open>frame_%05d.png\<close>: the decimal index, zero-padded to five digits.\<close>

fun digits_of :: "nat \<Rightarrow> string" where
  "digits_of n =
     (if n < 10 then [''0123456789'' ! n]
      else digits_of (n div 10) @ [''0123456789'' ! (n mod 10)])"

definition frame_name :: "nat \<Rightarrow> string" where
  "frame_name i =
     ''frame_'' @ replicate (5 - length (digits_of i)) CHR ''0'' @ digits_of i @ ''.png''"

text \<open>
  The run of ffmpeg writes the frames it decodes as \<open>frame_00001.png\<close>,
  \<open>frame_00002.png\<close>, \<dots> into the frames directory, replacing files of these names
  (\<open>overwrite_output\<close>). A failing run has written the frames it got to; its error
  leaves \<open>extract_frames\<close> uncaught.
\<close>

fun write_frames :: "path \<Rightarrow> nat \<Rightarrow> bytes list \<Rightarrow> filesystem \<Rightarrow> filesystem" where
  "write_frames d i [] fsys = fsys"
| "write_frames d i (b # bs) fsys = write_frames d (Suc i) bs (put_file (d @ [frame_name i]) b fsys)"

definition extract_frames :: "env \<Rightarrow> path \<Rightarrow> path \<Rightarrow> world \<Rightarrow> (pyexn + rat) \<times> world" where
  "extract_frames E video_path frames_dir w =
     (let w0 = record_event (Mkdir frames_dir) w in
      case mkdir_parents frames_dir (fs w0) of
        Inl e \<Rightarrow> (Inl e, w0)
      | Inr f1 \<Rightarrow>
          (let w1 = record_event (Probe video_path) (w0\<lparr>fs := f1\<rparr>) in
           case get_video_framerate E (fs w1) video_path of
             Inl e \<Rightarrow> (Inl e, w1)
           | Inr framerate \<Rightarrow>
               (let w2 = record_event (FfmpegExtract video_path frames_dir) w1;
                    (frames, err) = ffmpeg_decode E (lookup (fs w2) video_path);
                    w3 = w2\<lparr>fs := write_frames frames_dir 1 frames (fs w2)\<rparr>
                in case err of
                     Some e \<Rightarrow> (Inl e, w3)
                   | None \<Rightarrow> (Inr framerate, w3))))"

subsection \<open>\<open>remove_background_from_frames\<close>\<close>

text \<open>
  The body of the \<open>for\<close> loop, for the frame at index \<open>i\<close>: read, infer with the
  session, write under the same name, report when a callback was given.
\<close>

definition process_frame ::
  "env \<Rightarrow> session \<Rightarrow> path \<Rightarrow> callback \<Rightarrow> nat \<Rightarrow> nat \<Rightarrow> path \<Rightarrow> world
     \<Rightarrow> (pyexn + unit) \<times> world" where
  "process_frame E session output_dir progress_callback total_frames i frame_path w =
     (let w1 = record_event (ReadBytes frame_path) w in
      case read_bytes frame_path (fs w1) of
        Inl e \<Rightarrow> (Inl e, w1)
      | Inr input_bytes \<Rightarrow>
          (let w2 = record_event (Remove session input_bytes) w1 in
           case rembg_remove E session input_bytes of
             Inl e \<Rightarrow> (Inl e, w2)
           | Inr output_bytes \<Rightarrow>
               (let out = output_dir @ [last frame_path];
                    w3 = record_event (WriteBytes out output_bytes) w2 in
                case write_bytes out output_bytes (fs w3) of
                  Inl e \<Rightarrow> (Inl e, w3)
                | Inr f4 \<Rightarrow>
                    (let w4 = w3\<lparr>fs := f4\<rparr> in
                     case progress_callback of
                       None \<Rightarrow> (Inr (), w4)
                     | Some cb \<Rightarrow>
                         (let w5 = record_event (Callback i total_frames) w4 in
                          case cb i total_frames of
                            Some e \<Rightarrow> (Inl e, w5)
                          | None \<Rightarrow> (Inr (), w5))))))"

text \<open>
  \<open>for i, frame_path in enumerate(tqdm(frame_files), start=1)\<close>: the frames in the
  order of the list, the index counting from the start value; an exception of the body
  ends the loop. The progress bar tqdm prints is not modelled.
\<close>

fun frame_loop ::
  "env \<Rightarrow> session \<Rightarrow> path \<Rightarrow> callback \<Rightarrow> nat \<Rightarrow> nat \<Rightarrow> path list \<Rightarrow> world
     \<Rightarrow> (pyexn + unit) \<times> world" where
  "frame_loop E session output_dir progress_callback total_frames i [] w = (Inr (), w)"
| "frame_loop E session output_dir progress_callback total_frames i (frame_path # rest) w =
     (case process_frame E session output_dir progress_callback total_frames i frame_path w of
        (Inl e, w') \<Rightarrow> (Inl e, w')
      | (Inr u, w') \<Rightarrow>
          frame_loop E session output_dir progress_callback total_frames (Suc i) rest w')"

text \<open>
  The function proper: make the output directory, list and sort the frames, count them,
  load the model once, loop. The defaults of the signature (\<open>model_name="u2net"\<close>,
  \<open>progress_callback=None\<close>) are for the caller to pass; \<open>if progress_callback\<close>
  is the test for a callback being there.
\<close>

definition remove_background_from_frames ::
  "env \<Rightarrow> path \<Rightarrow> path \<Rightarrow> string \<Rightarrow> callback \<Rightarrow> world \<Rightarrow> (pyexn + unit) \<times> world" where
  "remove_background_from_frames E frames_dir output_dir model_name progress_callback w =
     (let w0 = record_event (Mkdir output_dir) w in
      case mkdir_parents output_dir (fs w0) of
        Inl e \<Rightarrow> (Inl e, w0)
      | Inr f1 \<Rightarrow>
          (let w1 = record_event (Glob frames_dir) (w0\<lparr>fs := f1\<rparr>);
               frame_files = sorted_glob (fs w1) frames_dir;
               total_frames = length frame_files;
               w2 = record_event (NewSession model_name) w1 in
           case new_session E model_name of
             Inl e \<Rightarrow> (Inl e, w2)
           | Inr session \<Rightarrow>
               frame_loop E session output_dir progress_callback total_frames 1 frame_files w2))"

subsection \<open>\<open>rebuild_video\<close>\<close>

text \<open>
  The framerate argument is optional (None: the caller gave none) and defaults to 30.0.
  No frame is listed or counted by the function itself: the frames directory goes to
  ffmpeg as the input pattern, and the run's error, if any, is not caught.
\<close>

definition default_framerate :: rat where
  "default_framerate = 30"

definition rebuild_video ::
  "env \<Rightarrow> path \<Rightarrow> path \<Rightarrow> rat option \<Rightarrow> world \<Rightarrow> (pyexn + unit) \<times> world" where
  "rebuild_video E frames_dir output_path framerate_arg w =
     (let framerate = (case framerate_arg of None \<Rightarrow> default_framerate | Some f \<Rightarrow> f);
          w0 = record_event (Mkdir (butlast output_path)) w in
      case mkdir_parents (butlast output_path) (fs w0) of
        Inl e \<Rightarrow> (Inl e, w0)
      | Inr f1 \<Rightarrow>
          (let w1 = record_event (FfmpegEncode frames_dir output_path framerate) (w0\<lparr>fs := f1\<rparr>) in
           case ffmpeg_encode E (dir_files (fs w1) frames_dir) framerate of
             Inl e \<Rightarrow> (Inl e, w1)
           | Inr video \<Rightarrow> (Inr (), w1\<lparr>fs := put_file output_path video (fs w1)\<rparr>)))"

subsection \<open>\<open>process_video\<close>\<close>

text \<open>
  \<open>tempfile.mkdtemp\<close>: the first candidate name that does not exist yet in the
  temporary directory is created; FileExistsError when the candidates run out.
\<close>

fun mkdtemp :: "path \<Rightarrow> string \<Rightarrow> string list \<Rightarrow> filesystem \<Rightarrow> pyexn + (path \<times> filesystem)" where
  "mkdtemp d prefix [] fsys = Inl FileExistsError"
| "mkdtemp d prefix (c # cs) fsys =
     (let p = d @ [prefix @ c] in
      if lookup fsys p \<noteq> None then mkdtemp d prefix cs fsys
      else if is_file fsys d then Inl NotADirectoryError
      else if \<not> is_dir fsys d then Inl FileNotFoundError
      else Inr (p, fsys @ [(p, Dir)]))"

text \<open>The three stages, as the body of the \<open>with\<close> statement runs them.\<close>

definition pipeline_stages ::
  "env \<Rightarrow> path \<Rightarrow> path \<Rightarrow> path \<Rightarrow> string \<Rightarrow> callback \<Rightarrow> world \<Rightarrow> (pyexn + unit) \<times> world" where
  "pipeline_stages E tmp_path input_path output_path model_name progress_callback w =
     (let frames_dir = tmp_path @ [''frames''];
          output_frames_dir = tmp_path @ [''output_frames''] in
      case extract_frames E input_path frames_dir w of
        (Inl e, w1) \<Rightarrow> (Inl e, w1)
      | (Inr framerate, w1) \<Rightarrow>
          (case remove_background_from_frames E frames_dir output_frames_dir model_name
                  progress_callback w1 of
             (Inl e, w2) \<Rightarrow> (Inl e, w2)
           | (Inr u, w2) \<Rightarrow> rebuild_video E output_frames_dir output_path (Some framerate) w2))"

text \<open>
  \<open>with tempfile.TemporaryDirectory(prefix="rekrea_rembg_") as tmp\<close>: the directory is
  made on entry; on leaving the block, normally or by an exception, \<open>__exit__\<close> removes
  the tree and returns None, so an exception of the block goes on to the caller.
\<close>

definition process_video ::
  "env \<Rightarrow> path \<Rightarrow> path \<Rightarrow> string \<Rightarrow> callback \<Rightarrow> world \<Rightarrow> (pyexn + unit) \<times> world" where
  "process_video E input_path output_path model_name progress_callback w =
     (case mkdtemp (gettempdir E) ''rekrea_rembg_'' (candidate_names E) (fs w) of
        Inl e \<Rightarrow> (Inl e, w)
      | Inr (tmp, f0) \<Rightarrow>
          (let w0 = record_event (Mkdtemp tmp) (w\<lparr>fs := f0\<rparr>);
               (r, w1) = pipeline_stages E tmp input_path output_path model_name
                           progress_callback w0;
               w2 = record_event (Cleanup tmp) w1
           in (r, w2\<lparr>fs := rmtree tmp (fs w2)\<rparr>)))"

subsection \<open>Observations on the trace\<close>

text \<open>The events a call added: the trace after it, without the trace before it.\<close>

definition new_events :: "world \<Rightarrow> world \<Rightarrow> event list" where
  "new_events w w' = drop (length (trace w)) (trace w')"

text \<open>The argument pairs of the progress callback's invocations, in order.\<close>

definition callback_args :: "event \<Rightarrow> (nat \<times> nat) option" where
  "callback_args ev = (case ev of Callback i t \<Rightarrow> Some (i, t) | _ \<Rightarrow> None)"

definition callback_calls :: "event list \<Rightarrow> (nat \<times> nat) list" where
  "callback_calls evs = List.map_filter callback_args evs"

text \<open>The paths handed to \<open>write_bytes\<close>, in order.\<close>

definition written_path :: "event \<Rightarrow> path option" where
  "written_path ev = (case ev of WriteBytes p b \<Rightarrow> Some p | _ \<Rightarrow> None)"

definition written_paths :: "event list \<Rightarrow> path list" where
  "written_paths evs = List.map_filter written_path evs"

text \<open>The sessions handed to rembg's \<open>remove\<close>, in order.\<close>

definition inference_session :: "event \<Rightarrow> session option" where
  "inference_session ev = (case ev of Remove s b \<Rightarrow> Some s | _ \<Rightarrow> None)"

definition inference_sessions :: "event list \<Rightarrow> session list" where
  "inference_sessions evs = List.map_filter inference_session evs"

text \<open>The model names handed to rembg's \<open>new_session\<close>, in order.\<close>

definition loaded_model :: "event \<Rightarrow> string option" where
  "loaded_model ev = (case ev of NewSession m \<Rightarrow> Some m | _ \<Rightarrow> None)"

definition session_loads :: "event list \<Rightarrow> string list" where
  "session_loads evs = List.map_filter loaded_model evs"

text \<open>Work on a frame: reading it, inferring on it, writing its result, reporting it.\<close>

definition frame_work :: "event \<Rightarrow> bool" where
  "frame_work ev =
     (case ev of
        ReadBytes p \<Rightarrow> True
      | Remove s b \<Rightarrow> True
      | WriteBytes p b \<Rightarrow> True
      | Callback i t \<Rightarrow> True
      | _ \<Rightarrow> False)"

text \<open>The framerate a call of \<open>rebuild_video\<close> encodes at: the argument, or the default.\<close>

definition given_framerate :: "rat option \<Rightarrow> rat" where
  "given_framerate framerate_arg = (case framerate_arg of None \<Rightarrow> default_framerate | Some f \<Rightarrow> f)"

text \<open>The framerates handed to ffmpeg's encoding runs, in order.\<close>

definition encode_framerate :: "event \<Rightarrow> rat option" where
  "encode_framerate ev = (case ev of FfmpegEncode d out fr \<Rightarrow> Some fr | _ \<Rightarrow> None)"

definition encode_framerates :: "event list \<Rightarrow> rat list" where
  "encode_framerates evs = List.map_filter encode_framerate evs"

text \<open>
  A stage of the pipeline fails with \<open>e\<close>: the extraction, or after it the background
  removal, or after both the reassembly.
\<close>

definition stage_fails ::
  "env \<Rightarrow> path \<Rightarrow> path \<Rightarrow> path \<Rightarrow> string \<Rightarrow> callback \<Rightarrow> world \<Rightarrow> pyexn \<Rightarrow> bool" where
  "stage_fails E tmp ip out m cb w e =
     (fst (extract_frames E ip (tmp @ [''frames'']) w) = Inl e \<or>
      (\<exists>fr w1. extract_frames E ip (tmp @ [''frames'']) w = (Inr fr, w1) \<and>
         (fst (remove_background_from_frames E (tmp @ [''frames'']) (tmp @ [''output_frames''])
                m cb w1) = Inl e \<or>
          (\<exists>w2. remove_background_from_frames E (tmp @ [''frames''])
                   (tmp @ [''output_frames'']) m cb w1 = (Inr (), w2) \<and>
             fst (rebuild_video E (tmp @ [''output_frames'']) out (Some fr) w2) = Inl e))))"

text \<open>
  The frame files a call of \<open>remove_background_from_frames\<close> lists: the sorted glob of
  the frames directory, taken once the output directory is made.
\<close>

definition listed_frames :: "path \<Rightarrow> path \<Rightarrow> world \<Rightarrow> path list" where
  "listed_frames frames_dir output_dir w =
     (case mkdir_parents output_dir (fs w) of
        Inl e \<Rightarrow> []
      | Inr f1 \<Rightarrow> sorted_glob f1 frames_dir)"

subsection \<open>A sample environment and sample worlds\<close>

text \<open>
  An environment in which the probe of a file reports an audio stream and a video stream
  at 25 frames a second and the file decodes to two frames (a path that holds no file
  makes ffmpeg fail with ffmpeg.Error), rembg knows the model \<open>u2net\<close> only (and raises
  ValueError for any other name, as rembg does), inference raises PIL's
  UnidentifiedImageError on the bytes \<open>corrupt\<close>, and ffmpeg's run fails (ffmpeg.Error)
  when the frames directory holds no file.
\<close>

definition sample_env :: env where
  "sample_env =
     \<lparr>ffmpeg_probe =
        (\<lambda>n. case n of
               Some (File b) \<Rightarrow>
                 Inr [[(''codec_type'', ''audio'')],
                      [(''codec_type'', ''video''), (''r_frame_rate'', ''25/1'')]]
             | _ \<Rightarrow> Inl (External ''Error'')),
      py_int = (\<lambda>s. if s = ''25'' then Some 25 else if s = ''1'' then Some 1 else None),
      ffmpeg_decode =
        (\<lambda>n. case n of
               Some (File b) \<Rightarrow> ([''f1'', ''f2''], None)
             | _ \<Rightarrow> ([], Some (External ''Error''))),
      new_session = (\<lambda>m. if m = ''u2net'' then Inr 0 else Inl ValueError),
      rembg_remove =
        (\<lambda>s b. if b = ''corrupt'' then Inl (External ''UnidentifiedImageError'')
               else Inr (b @ ''+alpha'')),
      ffmpeg_encode = (\<lambda>fl r. if fl = [] then Inl (External ''Error'') else Inr ''h264''),
      gettempdir = [''tmp''],
      candidate_names = [''abc'', ''def'']\<rparr>"

text \<open>The same, but the asset holds an audio stream only.\<close>

definition audio_only_env :: env where
  "audio_only_env = sample_env\<lparr>ffmpeg_probe := (\<lambda>n. Inr [[(''codec_type'', ''audio'')]])\<rparr>"

text \<open>
  A world with two frames (stored out of order), a file that is no frame, and an
  output directory that already holds a file.
\<close>

definition sample_world :: world where
  "sample_world =
     \<lparr>fs = [([''in''], Dir),
            ([''in'', ''frame_00002.png''], File ''f2''),
            ([''in'', ''frame_00001.png''], File ''f1''),
            ([''in'', ''notes.txt''], File ''n''),
            ([''out''], Dir),
            ([''out'', ''old.png''], File ''o''),
            ([''tmp''], Dir),
            ([''video.mp4''], File ''v'')],
      trace = []\<rparr>"

text \<open>
  A world whose second frame is corrupt, one with two frames and no output directory yet,
  and one whose frames directory is empty.
\<close>

definition corrupt_world :: world where
  "corrupt_world =
     \<lparr>fs = [([''in''], Dir),
            ([''in'', ''frame_00001.png''], File ''f1''),
            ([''in'', ''frame_00002.png''], File ''corrupt''),
            ([''in'', ''frame_00003.png''], File ''f3''),
            ([''tmp''], Dir)],
      trace = []\<rparr>"

definition fresh_world :: world where
  "fresh_world =
     \<lparr>fs = [([''in''], Dir),
            ([''in'', ''frame_00002.png''], File ''f2''),
            ([''in'', ''frame_00001.png''], File ''f1'')],
      trace = []\<rparr>"

definition empty_world :: world where
  "empty_world = \<lparr>fs = [([''in''], Dir), ([''tmp''], Dir)], trace = []\<rparr>"

definition quiet_callback :: "nat \<Rightarrow> nat \<Rightarrow> pyexn option" where
  "quiet_callback i t = None"

section \<open>Properties\<close>

subsection \<open>The file system operations\<close>

lemma map_of_filter_neq:
  "q \<noteq> p \<Longrightarrow> map_of (filter (\<lambda>(k, n). k \<noteq> p) f) q = map_of f q"
  by (induction f) auto

lemma lookup_put_file:
  "p \<noteq> [] \<Longrightarrow> lookup (put_file p b f) q = (if q = p then Some (File b) else lookup f q)"
  by (simp add: lookup_def put_file_def map_of_filter_neq)

lemma is_file_put_file:
  "p \<noteq> [] \<Longrightarrow> is_file (put_file p b f) q = (q = p \<or> is_file f q)"
  by (auto simp: is_file_def lookup_put_file)

lemma lookup_add_dir:
  "lookup (add_dir p f) q = (if q = p \<and> lookup f p = None then Some Dir else lookup f q)"
  by (auto simp: add_dir_def lookup_def map_add_def split: option.splits)

lemma lookup_add_dirs_file:
  "(lookup (foldl (\<lambda>f q. add_dir q f) f ps) q = Some (File b)) = (lookup f q = Some (File b))"
  by (induction ps arbitrary: f) (auto simp: lookup_add_dir)

lemma lookup_add_dirs_mono:
  "lookup f q = Some n \<Longrightarrow> lookup (foldl (\<lambda>f q. add_dir q f) f ps) q = Some n"
proof (induction ps arbitrary: f)
  case Nil
  then show ?case by simp
next
  case (Cons a ps)
  have "lookup (add_dir a f) q = Some n"
    using Cons.prems by (auto simp: lookup_add_dir)
  then show ?case
    using Cons.IH [of "add_dir a f"] by simp
qed

lemma lookup_add_dirs_last:
  "lookup (foldl (\<lambda>f q. add_dir q f) f (ps @ [p])) p \<noteq> None"
  by (simp add: lookup_add_dir)

lemma mkdir_parents_file:
  assumes "mkdir_parents p f = Inr f'"
  shows "(lookup f' q = Some (File b)) = (lookup f q = Some (File b))"
proof -
  have f': "f' = foldl (\<lambda>f q. add_dir q f) f (ancestors p @ [p])"
    using assms by (auto simp: mkdir_parents_def split: if_splits)
  show ?thesis
    unfolding f' by (rule lookup_add_dirs_file)
qed

lemma mkdir_parents_is_file:
  "mkdir_parents p f = Inr f' \<Longrightarrow> is_file f' q = is_file f q"
  using mkdir_parents_file [of p f f' q]
  by (cases "lookup f' q"; cases "lookup f q") (auto simp: is_file_def split: node.splits)

lemma mkdir_parents_is_dir:
  assumes "mkdir_parents p f = Inr f'"
  shows "is_dir f' p"
proof -
  have f': "f' = foldl (\<lambda>f q. add_dir q f) f (ancestors p @ [p])" and nf: "\<not> is_file f p"
    using assms by (auto simp: mkdir_parents_def split: if_splits)
  have "lookup f' p \<noteq> None"
    unfolding f' by (rule lookup_add_dirs_last)
  moreover have "\<not> is_file f' p"
    using nf mkdir_parents_is_file [OF assms] by simp
  ultimately show ?thesis
    by (cases "lookup f' p") (auto simp: is_dir_def is_file_def split: node.splits)
qed

lemma lookup_rmtree:
  "d \<noteq> [] \<Longrightarrow> take (length d) p = d \<Longrightarrow> lookup (rmtree d f) p = None"
  by (induction f) (auto simp: lookup_def rmtree_def)

lemma lookup_rmtree_other:
  "take (length d) p \<noteq> d \<Longrightarrow> lookup (rmtree d f) p = lookup f p"
  by (induction f) (auto simp: lookup_def rmtree_def)

subsection \<open>One frame, and the loop over the frames\<close>

lemma write_bytes_Inr:
  "write_bytes p c f = Inr f' \<Longrightarrow> f' = put_file p c f \<and> p \<noteq> []"
  by (auto simp: write_bytes_def split: if_splits)

lemma process_frame_cases:
  assumes pf: "process_frame E s od cb t i fp w = (r, w')"
  obtains
    (read_fails) e where
      "read_bytes fp (fs w) = Inl e" "r = Inl e"
      "trace w' = trace w @ [ReadBytes fp]" "fs w' = fs w"
  | (infer_fails) b e where
      "read_bytes fp (fs w) = Inr b" "rembg_remove E s b = Inl e" "r = Inl e"
      "trace w' = trace w @ [ReadBytes fp, Remove s b]" "fs w' = fs w"
  | (write_fails) b c e where
      "read_bytes fp (fs w) = Inr b" "rembg_remove E s b = Inr c"
      "write_bytes (od @ [last fp]) c (fs w) = Inl e" "r = Inl e"
      "trace w' = trace w @ [ReadBytes fp, Remove s b, WriteBytes (od @ [last fp]) c]"
      "fs w' = fs w"
  | (silent) b c where
      "read_bytes fp (fs w) = Inr b" "rembg_remove E s b = Inr c"
      "cb = None" "r = Inr ()"
      "trace w' = trace w @ [ReadBytes fp, Remove s b, WriteBytes (od @ [last fp]) c]"
      "fs w' = put_file (od @ [last fp]) c (fs w)"
  | (reported) b c f where
      "read_bytes fp (fs w) = Inr b" "rembg_remove E s b = Inr c"
      "cb = Some f" "r = (case f i t of Some e \<Rightarrow> Inl e | None \<Rightarrow> Inr ())"
      "trace w' =
         trace w @ [ReadBytes fp, Remove s b, WriteBytes (od @ [last fp]) c, Callback i t]"
      "fs w' = put_file (od @ [last fp]) c (fs w)"
proof (cases "read_bytes fp (fs w)")
  case (Inl e)
  then show ?thesis
    using pf read_fails by (auto simp: process_frame_def Let_def record_event_def)
next
  case rd: (Inr b)
  show ?thesis
  proof (cases "rembg_remove E s b")
    case (Inl e)
    then show ?thesis
      using pf rd infer_fails by (auto simp: process_frame_def Let_def record_event_def)
  next
    case rm: (Inr c)
    show ?thesis
    proof (cases "write_bytes (od @ [last fp]) c (fs w)")
      case (Inl e)
      then show ?thesis
        using pf rd rm write_fails by (auto simp: process_frame_def Let_def record_event_def)
    next
      case wr: (Inr f4)
      then have f4: "f4 = put_file (od @ [last fp]) c (fs w)"
        by (simp add: write_bytes_Inr)
      show ?thesis
      proof (cases cb)
        case None
        then show ?thesis
          using pf rd rm wr f4 silent by (auto simp: process_frame_def Let_def record_event_def)
      next
        case (Some f)
        then show ?thesis
          using pf rd rm wr f4 reported [of b c f]
          by (cases "f i t") (auto simp: process_frame_def Let_def record_event_def)
      qed
    qed
  qed
qed

lemma frame_loop_Cons_cases:
  assumes "frame_loop E s od cb t i (fp # fps) w = (r, w')"
  obtains
    (stop) e where "process_frame E s od cb t i fp w = (Inl e, w')" "r = Inl e"
  | (continue) w1 where
      "process_frame E s od cb t i fp w = (Inr (), w1)"
      "frame_loop E s od cb t (Suc i) fps w1 = (r, w')"
proof (cases "process_frame E s od cb t i fp w")
  case (Pair r1 w1)
  then show ?thesis
    using assms stop continue by (cases r1) auto
qed

lemma map_filter_append:
  "List.map_filter g (xs @ ys) = List.map_filter g xs @ List.map_filter g ys"
  by (simp add: map_filter_def)

lemma frame_work_events:
  "frame_work (ReadBytes p)" "frame_work (Remove s b)" "frame_work (WriteBytes p b)"
  "frame_work (Callback i t)" "\<not> frame_work (Mkdir p)" "\<not> frame_work (Glob p)"
  "\<not> frame_work (NewSession m)"
  by (simp_all add: frame_work_def)

lemma callback_args_events:
  "callback_args (ReadBytes p) = None" "callback_args (Remove s b) = None"
  "callback_args (WriteBytes p b) = None" "callback_args (Callback i t) = Some (i, t)"
  "callback_args (Mkdir p) = None" "callback_args (Glob p) = None"
  "callback_args (NewSession m) = None"
  by (simp_all add: callback_args_def)

lemma written_path_events:
  "written_path (ReadBytes p) = None" "written_path (Remove s b) = None"
  "written_path (WriteBytes p b) = Some p" "written_path (Callback i t) = None"
  "written_path (Mkdir p) = None" "written_path (Glob p) = None"
  "written_path (NewSession m) = None"
  by (simp_all add: written_path_def)

lemma inference_session_events:
  "inference_session (ReadBytes p) = None" "inference_session (Remove s b) = Some s"
  "inference_session (WriteBytes p b) = None" "inference_session (Callback i t) = None"
  "inference_session (Mkdir p) = None" "inference_session (Glob p) = None"
  "inference_session (NewSession m) = None"
  by (simp_all add: inference_session_def)

lemma loaded_model_events:
  "loaded_model (ReadBytes p) = None" "loaded_model (Remove s b) = None"
  "loaded_model (WriteBytes p b) = None" "loaded_model (Callback i t) = None"
  "loaded_model (Mkdir p) = None" "loaded_model (Glob p) = None"
  "loaded_model (NewSession m) = Some m"
  by (simp_all add: loaded_model_def)

lemmas obs_simps =
  callback_calls_def written_paths_def inference_sessions_def session_loads_def
  map_filter_append
  frame_work_events callback_args_events written_path_events inference_session_events
  loaded_model_events

lemma frame_loop_trace:
  "frame_loop E s od cb t i fps w = (r, w') \<Longrightarrow>
   \<exists>evs. trace w' = trace w @ evs \<and> list_all frame_work evs \<and> session_loads evs = []
     \<and> set (inference_sessions evs) \<subseteq> {s}"
proof (induction fps arbitrary: i w)
  case Nil
  then show ?case by (simp add: obs_simps)
next
  case (Cons fp fps)
  from Cons.prems show ?case
  proof (cases rule: frame_loop_Cons_cases)
    case (stop e)
    from stop(1) show ?thesis
      by (cases rule: process_frame_cases) (simp_all add: obs_simps)
  next
    case (continue w1)
    from Cons.IH [OF continue(2)] obtain evs where
      evs: "trace w' = trace w1 @ evs" "list_all frame_work evs" "session_loads evs = []"
        "set (inference_sessions evs) \<subseteq> {s}"
      by blast
    from continue(1) show ?thesis
      by (cases rule: process_frame_cases) (use evs in \<open>auto simp: obs_simps\<close>)
  qed
qed

lemma new_events_append: "trace w' = trace w @ evs \<Longrightarrow> new_events w w' = evs"
  by (simp add: new_events_def)

lemma frame_loop_new_events:
  assumes "frame_loop E s od cb t i fps w = (r, w')"
  shows "trace w' = trace w @ new_events w w'"
  using frame_loop_trace [OF assms] by (auto simp: new_events_def)

lemma new_events_step:
  assumes "trace wm = trace w @ es" and "frame_loop E s od cb t i fps wm = (r, w')"
  shows "new_events w w' = es @ new_events wm w'"
proof -
  from frame_loop_trace [OF assms(2)] obtain evs where "trace w' = trace wm @ evs"
    by blast
  then show ?thesis
    using assms(1) by (simp add: new_events_def)
qed

lemma frame_loop_no_callback:
  "frame_loop E s od None t i fps w = (r, w') \<Longrightarrow> callback_calls (new_events w w') = []"
proof (induction fps arbitrary: i w)
  case Nil
  then show ?case by (simp add: new_events_def obs_simps)
next
  case (Cons fp fps)
  from Cons.prems show ?case
  proof (cases rule: frame_loop_Cons_cases)
    case (stop e)
    from stop(1) show ?thesis
      by (cases rule: process_frame_cases) (simp_all add: new_events_append obs_simps)
  next
    case (continue w1)
    note ih = Cons.IH [OF continue(2)]
    from continue(1) show ?thesis
    proof (cases rule: process_frame_cases)
      case (silent b c)
      have "new_events w w' =
          [ReadBytes fp, Remove s b, WriteBytes (od @ [last fp]) c] @ new_events w1 w'"
        using silent(5) continue(2) by (rule new_events_step)
      then show ?thesis
        using ih by (simp add: obs_simps)
    qed simp_all
  qed
qed

lemma frame_loop_callbacks:
  "frame_loop E s od (Some f) t i fps w = (r, w') \<Longrightarrow>
   \<exists>k\<le>length fps. callback_calls (new_events w w') = map (\<lambda>j. (j, t)) [i..<i + k]
      \<and> (r = Inr () \<longrightarrow> k = length fps)"
proof (induction fps arbitrary: i w)
  case Nil
  then show ?case by (simp add: new_events_def obs_simps)
next
  case (Cons fp fps)
  from Cons.prems show ?case
  proof (cases rule: frame_loop_Cons_cases)
    case (stop e)
    from stop(1) show ?thesis
    proof (cases rule: process_frame_cases)
      case (reported b c g)
      then have "callback_calls (new_events w w') = map (\<lambda>j. (j, t)) [i..<i + 1]"
        by (simp add: new_events_append obs_simps)
      moreover have "r \<noteq> Inr ()"
        using stop(2) by simp
      ultimately show ?thesis
        by (intro exI [of _ 1]) simp
    qed (use stop(2) in \<open>auto simp: new_events_append obs_simps intro!: exI [of _ 0]\<close>)
  next
    case (continue w1)
    from Cons.IH [OF continue(2)] obtain k where
      k: "k \<le> length fps"
        "callback_calls (new_events w1 w') = map (\<lambda>j. (j, t)) [Suc i..<Suc i + k]"
        "r = Inr () \<longrightarrow> k = length fps"
      by blast
    from continue(1) show ?thesis
    proof (cases rule: process_frame_cases)
      case (reported b c g)
      have "new_events w w' =
          [ReadBytes fp, Remove s b, WriteBytes (od @ [last fp]) c, Callback i t]
          @ new_events w1 w'"
        using reported(5) continue(2) by (rule new_events_step)
      then have "callback_calls (new_events w w') = map (\<lambda>j. (j, t)) [i..<i + Suc k]"
        using k(2) by (simp add: obs_simps upt_rec [of i])
      then show ?thesis
        using k(1,3) by (intro exI [of _ "Suc k"]) simp
    qed simp_all
  qed
qed

lemma process_frame_keeps_files:
  assumes "process_frame E s od cb t i fp w = (r, w')" and "is_file (fs w) q"
  shows "is_file (fs w') q"
  using assms(1)
  by (cases rule: process_frame_cases) (use assms(2) in \<open>simp_all add: is_file_put_file\<close>)

lemma frame_loop_keeps_files:
  "frame_loop E s od cb t i fps w = (r, w') \<Longrightarrow> is_file (fs w) q \<Longrightarrow> is_file (fs w') q"
proof (induction fps arbitrary: i w)
  case Nil
  then show ?case by simp
next
  case (Cons fp fps)
  from Cons.prems(1) show ?case
  proof (cases rule: frame_loop_Cons_cases)
    case (stop e)
    then show ?thesis
      using Cons.prems(2) process_frame_keeps_files by blast
  next
    case (continue w1)
    then show ?thesis
      using Cons.prems(2) Cons.IH process_frame_keeps_files by blast
  qed
qed

lemma process_frame_success:
  assumes "process_frame E s od cb t i fp w = (Inr (), w')"
  obtains b c es where
    "trace w' = trace w @ ReadBytes fp # Remove s b # WriteBytes (od @ [last fp]) c # es"
    "es = [] \<or> es = [Callback i t]"
    "fs w' = put_file (od @ [last fp]) c (fs w)"
  using assms
  by (cases rule: process_frame_cases) auto

lemma frame_loop_success:
  "frame_loop E s od cb t i fps w = (Inr (), w') \<Longrightarrow>
   written_paths (new_events w w') = map (\<lambda>fp. od @ [last fp]) fps \<and>
   inference_sessions (new_events w w') = replicate (length fps) s \<and>
   (\<forall>q. is_file (fs w') q = (is_file (fs w) q \<or> q \<in> (\<lambda>fp. od @ [last fp]) ` set fps))"
proof (induction fps arbitrary: i w)
  case Nil
  then show ?case by (simp add: new_events_def obs_simps)
next
  case (Cons fp fps)
  from Cons.prems show ?case
  proof (cases rule: frame_loop_Cons_cases)
    case (continue w1)
    note ih = Cons.IH [OF continue(2)]
    from continue(1) obtain b c es where
      step: "trace w1 = trace w @ ReadBytes fp # Remove s b # WriteBytes (od @ [last fp]) c # es"
        "es = [] \<or> es = [Callback i t]"
        "fs w1 = put_file (od @ [last fp]) c (fs w)"
      by (rule process_frame_success)
    have ne: "new_events w w' =
        (ReadBytes fp # Remove s b # WriteBytes (od @ [last fp]) c # es) @ new_events w1 w'"
      using step(1) continue(2) by (rule new_events_step)
    have "written_paths (new_events w w') = map (\<lambda>fp. od @ [last fp]) (fp # fps)"
      using ih step(2) by (auto simp: ne obs_simps)
    moreover have "inference_sessions (new_events w w') = replicate (length (fp # fps)) s"
      using ih step(2) by (auto simp: ne obs_simps)
    moreover have "\<forall>q. is_file (fs w') q =
        (is_file (fs w) q \<or> q \<in> (\<lambda>fp. od @ [last fp]) ` set (fp # fps))"
      using ih by (auto simp: step(3) is_file_put_file)
    ultimately show ?thesis
      by blast
  qed simp
qed

lemma frame_loop_inference_failure:
  "frame_loop E s od cb t i fps w = (r, w') \<Longrightarrow> Remove s' b \<in> set (new_events w w') \<Longrightarrow>
   rembg_remove E s' b = Inl e \<Longrightarrow>
   r = Inl e \<and> (\<forall>p c. WriteBytes p c \<in> set (new_events w w') \<longrightarrow> is_file (fs w') p)"
proof (induction fps arbitrary: i w)
  case Nil
  then show ?case by (simp add: new_events_def)
next
  case (Cons fp fps)
  from Cons.prems(1) show ?case
  proof (cases rule: frame_loop_Cons_cases)
    case (stop e')
    from stop(1) show ?thesis
      by (cases rule: process_frame_cases)
        (use Cons.prems(2,3) stop(2) in \<open>auto simp: new_events_append\<close>)
  next
    case (continue w1)
    from continue(1) obtain b1 c es where
      step: "trace w1 = trace w @ ReadBytes fp # Remove s b1 # WriteBytes (od @ [last fp]) c # es"
        "es = [] \<or> es = [Callback i t]"
        "fs w1 = put_file (od @ [last fp]) c (fs w)"
      and ok: "rembg_remove E s b1 = Inr c"
      by (cases rule: process_frame_cases) auto
    have ne: "new_events w w' =
        (ReadBytes fp # Remove s b1 # WriteBytes (od @ [last fp]) c # es) @ new_events w1 w'"
      using step(1) continue(2) by (rule new_events_step)
    have "Remove s' b \<in> set (new_events w1 w')"
      using Cons.prems(2,3) ok step(2) by (auto simp: ne)
    from Cons.IH [OF continue(2) this Cons.prems(3)]
    have r: "r = Inl e" and wr: "\<forall>p c. WriteBytes p c \<in> set (new_events w1 w') \<longrightarrow> is_file (fs w') p"
      by blast+
    have "is_file (fs w1) (od @ [last fp])"
      by (simp add: step(3) is_file_put_file)
    then have "is_file (fs w') (od @ [last fp])"
      using continue(2) frame_loop_keeps_files by blast
    then show ?thesis
      using r wr step(2) by (auto simp: ne)
  qed
qed

subsection \<open>\<open>remove_background_from_frames\<close>\<close>

lemma remove_background_cases:
  assumes "remove_background_from_frames E fd od m cb w = (r, w')"
  obtains
    (mkdir_fails) e where
      "mkdir_parents od (fs w) = Inl e" "r = Inl e"
      "trace w' = trace w @ [Mkdir od]" "fs w' = fs w"
  | (load_fails) f1 e where
      "mkdir_parents od (fs w) = Inr f1" "new_session E m = Inl e" "r = Inl e"
      "trace w' = trace w @ [Mkdir od, Glob fd, NewSession m]" "fs w' = f1"
  | (loop) f1 s w2 where
      "mkdir_parents od (fs w) = Inr f1" "new_session E m = Inr s"
      "trace w2 = trace w @ [Mkdir od, Glob fd, NewSession m]" "fs w2 = f1"
      "frame_loop E s od cb (length (sorted_glob f1 fd)) 1 (sorted_glob f1 fd) w2 = (r, w')"
proof (cases "mkdir_parents od (fs w)")
  case (Inl e)
  then show ?thesis
    using assms mkdir_fails
    by (auto simp: remove_background_from_frames_def Let_def record_event_def)
next
  case mk: (Inr f1)
  show ?thesis
  proof (cases "new_session E m")
    case (Inl e)
    then show ?thesis
      using assms mk load_fails
      by (auto simp: remove_background_from_frames_def Let_def record_event_def)
  next
    case (Inr s)
    then show ?thesis
      using assms mk
        loop [of f1 s "record_event (NewSession m)
          (record_event (Glob fd) (record_event (Mkdir od) w\<lparr>fs := f1\<rparr>))"]
      by (simp add: remove_background_from_frames_def Let_def record_event_def)
  qed
qed

lemma listed_frames_Inr:
  "mkdir_parents od (fs w) = Inr f1 \<Longrightarrow> listed_frames fd od w = sorted_glob f1 fd"
  by (simp add: listed_frames_def)

text \<open>
  C2. Progress reports of a batch. With a callback supplied and the call returning, the
  callback is invoked exactly once a listed frame, with \<open>(1, N), (2, N), \<dots>, (N, N)\<close>
  for the \<open>N\<close> frames listed; with no callback nothing is reported. Whatever the
  outcome, the reports made are an initial run \<open>(1, N), \<dots>, (k, N)\<close> of these.
\<close>

theorem progress_callback_calls:
  assumes "remove_background_from_frames E frames_dir output_dir model_name cb w = (r, w')"
  shows "(cb = None \<longrightarrow> callback_calls (new_events w w') = []) \<and>
    (cb \<noteq> None \<and> r = Inr () \<longrightarrow>
       callback_calls (new_events w w') =
         map (\<lambda>i. (i, length (listed_frames frames_dir output_dir w)))
           [1..<Suc (length (listed_frames frames_dir output_dir w))]) \<and>
    (\<exists>k\<le>length (listed_frames frames_dir output_dir w).
       callback_calls (new_events w w') =
         map (\<lambda>i. (i, length (listed_frames frames_dir output_dir w))) [1..<Suc k])"
  using assms
proof (cases rule: remove_background_cases)
  case (mkdir_fails e)
  then have "callback_calls (new_events w w') = []" "r \<noteq> Inr ()"
    by (simp_all add: new_events_append obs_simps)
  then show ?thesis
    by (auto intro: exI [of _ 0])
next
  case (load_fails f1 e)
  then have "callback_calls (new_events w w') = []" "r \<noteq> Inr ()"
    by (simp_all add: new_events_append obs_simps)
  then show ?thesis
    by (auto intro: exI [of _ 0])
next
  case (loop f1 s w2)
  let ?n = "length (sorted_glob f1 frames_dir)"
  have lf: "listed_frames frames_dir output_dir w = sorted_glob f1 frames_dir"
    using loop(1) by (rule listed_frames_Inr)
  have ne: "new_events w w' =
      [Mkdir output_dir, Glob frames_dir, NewSession model_name] @ new_events w2 w'"
    using loop(3,5) by (rule new_events_step)
  then have cc: "callback_calls (new_events w w') = callback_calls (new_events w2 w')"
    by (simp add: obs_simps)
  show ?thesis
  proof (cases cb)
    case None
    then have "callback_calls (new_events w2 w') = []"
      using loop(5) frame_loop_no_callback by simp
    then show ?thesis
      using None cc by (auto intro: exI [of _ 0])
  next
    case (Some f)
    from frame_loop_callbacks [OF loop(5) [unfolded Some]] obtain k where
      k: "k \<le> ?n" "callback_calls (new_events w2 w') = map (\<lambda>j. (j, ?n)) [1..<1 + k]"
        "r = Inr () \<longrightarrow> k = ?n"
      by blast
    then show ?thesis
      using Some cc lf by auto
  qed
qed

theorem progress_callback_calls_witness:
  "fst (remove_background_from_frames sample_env [''in''] [''out''] ''u2net''
          (Some quiet_callback) sample_world) = Inr () \<and>
   callback_calls (new_events sample_world
     (snd (remove_background_from_frames sample_env [''in''] [''out''] ''u2net''
          (Some quiet_callback) sample_world))) = [(1, 2), (2, 2)] \<and>
   callback_calls (new_events sample_world
     (snd (remove_background_from_frames sample_env [''in''] [''out''] ''u2net''
          None sample_world))) = []"
proof -
  let ?X = "remove_background_from_frames sample_env [''in''] [''out''] ''u2net''
          (Some quiet_callback) sample_world"
  let ?Y = "remove_background_from_frames sample_env [''in''] [''out''] ''u2net''
          None sample_world"
  have run: "fst ?X = Inr ()"
    by code_simp
  have n: "length (listed_frames [''in''] [''out''] sample_world) = 2"
    by code_simp
  have "?X = (fst ?X, snd ?X)"
    by simp
  from progress_callback_calls [OF this] run n
  have "callback_calls (new_events sample_world (snd ?X)) = map (\<lambda>i. (i, 2)) [1..<Suc 2]"
    by simp
  also have "\<dots> = [(1, 2), (2, 2)]"
    by (simp add: upt_rec)
  finally have reported: "callback_calls (new_events sample_world (snd ?X)) = [(1, 2), (2, 2)]" .
  have "?Y = (fst ?Y, snd ?Y)"
    by simp
  from progress_callback_calls [OF this]
  have "callback_calls (new_events sample_world (snd ?Y)) = []"
    by simp
  then show ?thesis
    using run reported by simp
qed

lemma sorted_glob_names:
  "map last (sorted_glob f d) = sort (filter matches_frame_pattern (children f d))"
  by (simp add: sorted_glob_def comp_def)

lemma sorted_glob_sorted: "sorted (map last (sorted_glob f d))"
  by (simp add: sorted_glob_names)

lemma sorted_glob_distinct: "distinct (map last (sorted_glob f d))"
  by (simp add: sorted_glob_names children_def)

lemma sorted_glob_paths: "sorted_glob f d = map (\<lambda>n. d @ [n]) (map last (sorted_glob f d))"
  by (simp add: sorted_glob_def comp_def)

lemma mkdir_parents_files:
  "mkdir_parents p f = Inr f' \<Longrightarrow> file_names f' d = file_names f d"
  by (simp add: file_names_def mkdir_parents_is_file)

text \<open>
  C4. One model session for the batch. A call asks rembg for a session at most once; once
  the output directory is made it asks exactly once, for the given model, after the
  directory is made and the frames are listed and before any work on a frame; every
  inference of the call is handed the session that call returned, and a returning call
  has inferred once a listed frame, each time with it.
\<close>

theorem one_session_for_the_batch:
  assumes "remove_background_from_frames E frames_dir output_dir model_name cb w = (r, w')"
  shows "length (session_loads (new_events w w')) \<le> 1 \<and>
    (\<forall>f1. mkdir_parents output_dir (fs w) = Inr f1 \<longrightarrow>
       (\<exists>post. new_events w w' =
            [Mkdir output_dir, Glob frames_dir, NewSession model_name] @ post \<and>
          list_all frame_work post \<and> session_loads post = [] \<and>
          (\<forall>s. new_session E model_name = Inr s \<longrightarrow> set (inference_sessions post) \<subseteq> {s}) \<and>
          (\<forall>s. new_session E model_name = Inr s \<and> r = Inr () \<longrightarrow>
             inference_sessions post = replicate (length (sorted_glob f1 frames_dir)) s)))"
  using assms
proof (cases rule: remove_background_cases)
  case (mkdir_fails e)
  then show ?thesis
    by (simp add: new_events_append obs_simps)
next
  case (load_fails f1 e)
  then show ?thesis
    by (simp add: new_events_append obs_simps)
next
  case (loop f1 s w2)
  have ne: "new_events w w' =
      [Mkdir output_dir, Glob frames_dir, NewSession model_name] @ new_events w2 w'"
    using loop(3,5) by (rule new_events_step)
  from frame_loop_trace [OF loop(5)] obtain evs where
    evs: "trace w' = trace w2 @ evs" "list_all frame_work evs" "session_loads evs = []"
      "set (inference_sessions evs) \<subseteq> {s}"
    by blast
  have post: "new_events w2 w' = evs"
    using evs(1) by (rule new_events_append)
  have "r = Inr () \<longrightarrow> inference_sessions evs = replicate (length (sorted_glob f1 frames_dir)) s"
    using loop(5) frame_loop_success [of E s output_dir cb _ 1 _ w2 w'] post by auto
  then show ?thesis
    using loop(1,2) evs(2,3,4) by (simp add: ne post obs_simps)
qed

theorem one_session_for_the_batch_witness:
  "session_loads (new_events sample_world
     (snd (remove_background_from_frames sample_env [''in''] [''out''] ''u2net'' None
        sample_world))) = [''u2net''] \<and>
   inference_sessions (new_events sample_world
     (snd (remove_background_from_frames sample_env [''in''] [''out''] ''u2net'' None
        sample_world))) = [0, 0]"
proof -
  let ?X = "remove_background_from_frames sample_env [''in''] [''out''] ''u2net'' None
        sample_world"
  have mk: "mkdir_parents [''out''] (fs sample_world) = Inr (fs sample_world)"
    by code_simp
  have ses: "new_session sample_env ''u2net'' = Inr 0"
    by code_simp
  have run: "fst ?X = Inr ()"
    by code_simp
  have n: "length (sorted_glob (fs sample_world) [''in'']) = 2"
    by code_simp
  have "?X = (fst ?X, snd ?X)"
    by simp
  from one_session_for_the_batch [OF this, THEN conjunct2, rule_format, OF mk]
  obtain post where
    post: "new_events sample_world (snd ?X) = [Mkdir [''out''], Glob [''in''], NewSession ''u2net''] @ post"
      "session_loads post = []"
      "\<forall>s. new_session sample_env ''u2net'' = Inr s \<and> fst ?X = Inr () \<longrightarrow>
         inference_sessions post = replicate (length (sorted_glob (fs sample_world) [''in''])) s"
    by blast
  from post(3) ses run n have "inference_sessions post = replicate 2 0"
    by simp
  then show ?thesis
    using post(1,2) by (simp add: obs_simps numeral_2_eq_2)
qed

lemma process_frame_keeps_content:
  assumes "process_frame E s od cb t i fp w = (r, w')" and "lookup (fs w) q = Some (File x)"
    and "q \<noteq> od @ [last fp]"
  shows "lookup (fs w') q = Some (File x)"
  using assms(1)
  by (cases rule: process_frame_cases) (use assms(2,3) in \<open>simp_all add: lookup_put_file\<close>)

lemma frame_loop_keeps_content:
  "frame_loop E s od cb t i fps w = (r, w') \<Longrightarrow> lookup (fs w) q = Some (File x) \<Longrightarrow>
   q \<notin> (\<lambda>fp. od @ [last fp]) ` set fps \<Longrightarrow> lookup (fs w') q = Some (File x)"
proof (induction fps arbitrary: i w)
  case Nil
  then show ?case by simp
next
  case (Cons fp fps)
  have q: "q \<noteq> od @ [last fp]" "q \<notin> (\<lambda>fp. od @ [last fp]) ` set fps"
    using Cons.prems(3) by auto
  from Cons.prems(1) show ?case
  proof (cases rule: frame_loop_Cons_cases)
    case (stop e)
    then show ?thesis
      using Cons.prems(2) q(1) process_frame_keeps_content by blast
  next
    case (continue w1)
    have "lookup (fs w1) q = Some (File x)"
      using continue(1) Cons.prems(2) q(1) by (rule process_frame_keeps_content)
    then show ?thesis
      using continue(2) q(2) Cons.IH by blast
  qed
qed

lemma frame_loop_inference_failure_content:
  "frame_loop E s od cb t i fps w = (r, w') \<Longrightarrow> Remove s' b \<in> set (new_events w w') \<Longrightarrow>
   rembg_remove E s' b = Inl e \<Longrightarrow> distinct (map last fps) \<Longrightarrow>
   (\<forall>p c. WriteBytes p c \<in> set (new_events w w') \<longrightarrow> lookup (fs w') p = Some (File c))"
proof (induction fps arbitrary: i w)
  case Nil
  then show ?case by (simp add: new_events_def)
next
  case (Cons fp fps)
  from Cons.prems(1) show ?case
  proof (cases rule: frame_loop_Cons_cases)
    case (stop e')
    from stop(1) show ?thesis
      by (cases rule: process_frame_cases)
        (use Cons.prems(2,3) stop(2) in \<open>auto simp: new_events_append\<close>)
  next
    case (continue w1)
    from continue(1) obtain b1 c es where
      step: "trace w1 = trace w @ ReadBytes fp # Remove s b1 # WriteBytes (od @ [last fp]) c # es"
        "es = [] \<or> es = [Callback i t]"
        "fs w1 = put_file (od @ [last fp]) c (fs w)"
      and ok: "rembg_remove E s b1 = Inr c"
      by (cases rule: process_frame_cases) auto
    have ne: "new_events w w' =
        (ReadBytes fp # Remove s b1 # WriteBytes (od @ [last fp]) c # es) @ new_events w1 w'"
      using step(1) continue(2) by (rule new_events_step)
    have "Remove s' b \<in> set (new_events w1 w')"
      using Cons.prems(2,3) ok step(2) by (auto simp: ne)
    moreover have "distinct (map last fps)"
      using Cons.prems(4) by simp
    ultimately have
      wr: "\<forall>p c. WriteBytes p c \<in> set (new_events w1 w') \<longrightarrow> lookup (fs w') p = Some (File c)"
      using Cons.IH [OF continue(2) _ Cons.prems(3)] by blast
    have "lookup (fs w1) (od @ [last fp]) = Some (File c)"
      by (simp add: step(3) lookup_put_file)
    moreover have "od @ [last fp] \<notin> (\<lambda>fp. od @ [last fp]) ` set fps"
      using Cons.prems(4) by auto
    ultimately have "lookup (fs w') (od @ [last fp]) = Some (File c)"
      using continue(2) frame_loop_keeps_content by blast
    then show ?thesis
      using wr step(2) by (auto simp: ne)
  qed
qed

text \<open>
  C5 (as amended). When an inference of the batch raises, the call as a whole fails with
  that very exception (the module wraps it in no error class of its own), there is no
  partial result, and every output file written before is still in place with the bytes
  written.
\<close>

theorem inference_failure_fails_batch:
  assumes "remove_background_from_frames E frames_dir output_dir model_name cb w = (r, w')"
    and "Remove s b \<in> set (new_events w w')"
    and "rembg_remove E s b = Inl e"
  shows "r = Inl e \<and>
    (\<forall>p c. WriteBytes p c \<in> set (new_events w w') \<longrightarrow> lookup (fs w') p = Some (File c))"
  using assms(1)
proof (cases rule: remove_background_cases)
  case (mkdir_fails e')
  then show ?thesis
    using assms(2) by (simp add: new_events_append)
next
  case (load_fails f1 e')
  then show ?thesis
    using assms(2) by (simp add: new_events_append)
next
  case (loop f1 s0 w2)
  have ne: "new_events w w' =
      [Mkdir output_dir, Glob frames_dir, NewSession model_name] @ new_events w2 w'"
    using loop(3,5) by (rule new_events_step)
  have rm: "Remove s b \<in> set (new_events w2 w')"
    using assms(2) by (simp add: ne)
  have "r = Inl e"
    using frame_loop_inference_failure [OF loop(5) rm assms(3)] by simp
  moreover have
    "\<forall>p c. WriteBytes p c \<in> set (new_events w2 w') \<longrightarrow> lookup (fs w') p = Some (File c)"
    using loop(5) rm assms(3) sorted_glob_distinct
    by (rule frame_loop_inference_failure_content)
  ultimately show ?thesis
    by (simp add: ne)
qed

theorem inference_failure_fails_batch_witness:
  "fst (remove_background_from_frames sample_env [''in''] [''out''] ''u2net'' None corrupt_world)
     = Inl (External ''UnidentifiedImageError'') \<and>
   lookup (fs (snd (remove_background_from_frames sample_env [''in''] [''out''] ''u2net'' None
       corrupt_world))) [''out'', ''frame_00001.png''] = Some (File ''f1+alpha'')"
proof -
  let ?X = "remove_background_from_frames sample_env [''in''] [''out''] ''u2net'' None
        corrupt_world"
  have ev: "new_events corrupt_world (snd ?X) =
      [Mkdir [''out''], Glob [''in''], NewSession ''u2net'',
       ReadBytes [''in'', ''frame_00001.png''], Remove 0 ''f1'',
       WriteBytes [''out'', ''frame_00001.png''] ''f1+alpha'',
       ReadBytes [''in'', ''frame_00002.png''], Remove 0 ''corrupt'']"
    by code_simp
  have bad: "rembg_remove sample_env 0 ''corrupt'' = Inl (External ''UnidentifiedImageError'')"
    by code_simp
  have "?X = (fst ?X, snd ?X)"
    by simp
  from inference_failure_fails_batch [OF this _ bad] ev show ?thesis
    by simp
qed

theorem inference_error_class_counterexample:
  "fst (remove_background_from_frames sample_env [''in''] [''out''] ''u2net'' None corrupt_world)
     = Inl (External ''UnidentifiedImageError'') \<and>
   exn_class (External ''UnidentifiedImageError'') \<noteq> ''InferenceError''"
proof -
  have "fst (remove_background_from_frames sample_env [''in''] [''out''] ''u2net'' None
      corrupt_world) = Inl (External ''UnidentifiedImageError'')"
    by code_simp
  then show ?thesis
    by simp
qed

text \<open>
  C6 (as amended). When rembg rejects the model name, the call fails; once the output
  directory is made it fails with rembg's exception unchanged, after making the
  directory, listing the frames and asking for the session, and nothing else. No frame
  is read, inferred, written or reported, and the regular files of the file system are
  the ones before the call.
\<close>

theorem unknown_model_fails_first:
  assumes "remove_background_from_frames E frames_dir output_dir model_name cb w = (r, w')"
    and "new_session E model_name = Inl e"
  shows "(\<exists>e'. r = Inl e') \<and>
    (\<forall>f1. mkdir_parents output_dir (fs w) = Inr f1 \<longrightarrow>
       r = Inl e \<and>
       new_events w w' = [Mkdir output_dir, Glob frames_dir, NewSession model_name]) \<and>
    list_all (\<lambda>ev. \<not> frame_work ev) (new_events w w') \<and>
    (\<forall>p b. (lookup (fs w') p = Some (File b)) = (lookup (fs w) p = Some (File b)))"
  using assms(1)
proof (cases rule: remove_background_cases)
  case (mkdir_fails e')
  then show ?thesis
    by (simp add: new_events_append obs_simps)
next
  case (load_fails f1 e')
  then show ?thesis
    using assms(2) mkdir_parents_file [of output_dir "fs w" f1]
    by (simp add: new_events_append obs_simps)
next
  case (loop f1 s w2)
  then show ?thesis
    using assms(2) by simp
qed

theorem unknown_model_fails_first_witness:
  "fst (remove_background_from_frames sample_env [''in''] [''out''] ''not-a-real-model'' None
      sample_world) = Inl ValueError \<and>
   new_events sample_world
     (snd (remove_background_from_frames sample_env [''in''] [''out''] ''not-a-real-model'' None
        sample_world)) = [Mkdir [''out''], Glob [''in''], NewSession ''not-a-real-model'']"
proof -
  let ?X = "remove_background_from_frames sample_env [''in''] [''out''] ''not-a-real-model''
      None sample_world"
  have mk: "mkdir_parents [''out''] (fs sample_world) = Inr (fs sample_world)"
    by code_simp
  have ses: "new_session sample_env ''not-a-real-model'' = Inl ValueError"
    by code_simp
  have "?X = (fst ?X, snd ?X)"
    by simp
  from unknown_model_fails_first [OF this ses] mk show ?thesis
    by simp
qed

theorem unknown_model_error_class_counterexample:
  "fst (remove_background_from_frames sample_env [''in''] [''out''] ''not-a-real-model'' None
      sample_world) = Inl ValueError \<and>
   exn_class ValueError \<noteq> ''UnknownModelError''"
proof -
  have "fst (remove_background_from_frames sample_env [''in''] [''out''] ''not-a-real-model''
      None sample_world) = Inl ValueError"
    by code_simp
  then show ?thesis
    by simp
qed

text \<open>
  C10. No frame listed. When the output directory can be made, the glob lists nothing
  and rembg returns a session, the call returns normally: the output directory exists,
  the session was asked for, the callback is never invoked and nothing is written.
\<close>

theorem no_frames_returns:
  assumes "mkdir_parents output_dir (fs w) = Inr f1"
    and "sorted_glob f1 frames_dir = []"
    and "new_session E model_name = Inr s"
  shows "\<exists>w'. remove_background_from_frames E frames_dir output_dir model_name cb w = (Inr (), w')
    \<and> is_dir (fs w') output_dir
    \<and> new_events w w' = [Mkdir output_dir, Glob frames_dir, NewSession model_name]
    \<and> callback_calls (new_events w w') = []
    \<and> written_paths (new_events w w') = []
    \<and> (\<forall>p b. (lookup (fs w') p = Some (File b)) = (lookup (fs w) p = Some (File b)))"
  using assms mkdir_parents_is_dir [OF assms(1)] mkdir_parents_file [OF assms(1)]
  by (simp add: remove_background_from_frames_def Let_def record_event_def new_events_def
      obs_simps)

theorem no_frames_returns_witness:
  "fst (remove_background_from_frames sample_env [''in''] [''out''] ''u2net''
      (Some quiet_callback) empty_world) = Inr () \<and>
   is_dir (fs (snd (remove_background_from_frames sample_env [''in''] [''out''] ''u2net''
      (Some quiet_callback) empty_world))) [''out''] \<and>
   callback_calls (new_events empty_world
     (snd (remove_background_from_frames sample_env [''in''] [''out''] ''u2net''
        (Some quiet_callback) empty_world))) = []"
proof -
  have mk: "mkdir_parents [''out''] (fs empty_world) = Inr (fs empty_world @ [([''out''], Dir)])"
    by code_simp
  have gl: "sorted_glob (fs empty_world @ [([''out''], Dir)]) [''in''] = []"
    by code_simp
  have ses: "new_session sample_env ''u2net'' = Inr 0"
    by code_simp
  from no_frames_returns [OF mk gl ses, of "Some quiet_callback"] show ?thesis
    by auto
qed

text \<open>
  C3 (as amended). A returning call has written exactly one output a listed frame, under
  the frame's name in the output directory, in the order of the sorted names; the listed
  frames are entries of the frames directory with distinct names. The files of the output
  directory are then the ones it held before and the listed names: exactly the listed
  names when it held no file before.
\<close>

theorem outputs_match_listed_frames:
  assumes "remove_background_from_frames E frames_dir output_dir model_name cb w = (Inr (), w')"
  shows "written_paths (new_events w w') =
      map (\<lambda>fp. output_dir @ [last fp]) (listed_frames frames_dir output_dir w) \<and>
    listed_frames frames_dir output_dir w =
      map (\<lambda>n. frames_dir @ [n]) (map last (listed_frames frames_dir output_dir w)) \<and>
    sorted (map last (listed_frames frames_dir output_dir w)) \<and>
    distinct (map last (listed_frames frames_dir output_dir w)) \<and>
    file_names (fs w') output_dir =
      file_names (fs w) output_dir \<union> last ` set (listed_frames frames_dir output_dir w) \<and>
    (file_names (fs w) output_dir = {} \<longrightarrow>
       file_names (fs w') output_dir = last ` set (listed_frames frames_dir output_dir w))"
  using assms
proof (cases rule: remove_background_cases)
  case (loop f1 s w2)
  have lf: "listed_frames frames_dir output_dir w = sorted_glob f1 frames_dir"
    using loop(1) by (rule listed_frames_Inr)
  have ne: "new_events w w' =
      [Mkdir output_dir, Glob frames_dir, NewSession model_name] @ new_events w2 w'"
    using loop(3,5) by (rule new_events_step)
  note ok = frame_loop_success [OF loop(5)]
  have wp: "written_paths (new_events w w') =
      map (\<lambda>fp. output_dir @ [last fp]) (sorted_glob f1 frames_dir)"
    using ok by (simp add: ne obs_simps)
  have "file_names (fs w') output_dir =
      file_names f1 output_dir \<union> last ` set (sorted_glob f1 frames_dir)"
    using ok loop(4) by (auto simp: file_names_def)
  then have fn: "file_names (fs w') output_dir =
      file_names (fs w) output_dir \<union> last ` set (sorted_glob f1 frames_dir)"
    using mkdir_parents_files [OF loop(1)] by simp
  show ?thesis
    using wp fn sorted_glob_paths [of f1 frames_dir] sorted_glob_sorted sorted_glob_distinct
    by (simp add: lf)
qed simp_all

theorem outputs_match_listed_frames_witness:
  "fst (remove_background_from_frames sample_env [''in''] [''out''] ''u2net'' None fresh_world)
     = Inr () \<and>
   file_names (fs fresh_world) [''out''] = {} \<and>
   written_paths (new_events fresh_world
     (snd (remove_background_from_frames sample_env [''in''] [''out''] ''u2net'' None
        fresh_world))) = [[''out'', ''frame_00001.png''], [''out'', ''frame_00002.png'']] \<and>
   file_names (fs (snd (remove_background_from_frames sample_env [''in''] [''out''] ''u2net''
      None fresh_world))) [''out''] = {''frame_00001.png'', ''frame_00002.png''}"
proof -
  let ?X = "remove_background_from_frames sample_env [''in''] [''out''] ''u2net'' None
      fresh_world"
  have run: "fst ?X = Inr ()"
    by code_simp
  have lf: "listed_frames [''in''] [''out''] fresh_world =
      [[''in'', ''frame_00001.png''], [''in'', ''frame_00002.png'']]"
    by code_simp
  have none: "file_names (fs fresh_world) [''out''] = {}"
    by (simp add: file_names_def is_file_def lookup_def fresh_world_def)
  have "?X = (Inr (), snd ?X)"
    using run by (metis prod.collapse)
  from outputs_match_listed_frames [OF this] run lf none show ?thesis
    by auto
qed

theorem stale_output_counterexample:
  "fst (remove_background_from_frames sample_env [''in''] [''out''] ''u2net'' None sample_world)
     = Inr () \<and>
   ''old.png'' \<in> file_names (fs (snd (remove_background_from_frames sample_env [''in'']
      [''out''] ''u2net'' None sample_world))) [''out''] \<and>
   ''old.png'' \<notin> last ` set (listed_frames [''in''] [''out''] sample_world)"
proof -
  let ?X = "remove_background_from_frames sample_env [''in''] [''out''] ''u2net'' None
      sample_world"
  have run: "fst ?X = Inr ()"
    by code_simp
  have lf: "listed_frames [''in''] [''out''] sample_world =
      [[''in'', ''frame_00001.png''], [''in'', ''frame_00002.png'']]"
    by code_simp
  have old: "is_file (fs (snd ?X)) [''out'', ''old.png'']"
    by code_simp
  show ?thesis
    using run old by (simp add: lf file_names_def)
qed

subsection \<open>\<open>_get_video_framerate\<close>\<close>

lemma first_video_stream_none:
  "\<forall>s\<in>set streams. \<exists>c. map_of s ''codec_type'' = Some c \<and> c \<noteq> ''video'' \<Longrightarrow>
   first_video_stream streams = Inl StopIteration"
  by (induction streams) auto

text \<open>
  C7 (as amended). When the probe of the asset raises (the container cannot be read), the
  prober fails with that exception unchanged; when the probe answers and none of the
  streams is a video stream, it fails with StopIteration, raised by \<open>next\<close> on the
  exhausted generator. The module defines and raises no ProbeError.
\<close>

theorem prober_failures:
  "(\<forall>e. ffmpeg_probe E (lookup fsys video_path) = Inl e \<longrightarrow>
      get_video_framerate E fsys video_path = Inl e) \<and>
   (\<forall>streams. ffmpeg_probe E (lookup fsys video_path) = Inr streams \<and>
      (\<forall>s\<in>set streams. \<exists>c. map_of s ''codec_type'' = Some c \<and> c \<noteq> ''video'') \<longrightarrow>
      get_video_framerate E fsys video_path = Inl StopIteration)"
  by (simp add: get_video_framerate_def first_video_stream_none)

theorem prober_failures_witness:
  "get_video_framerate sample_env (fs sample_world) [''missing.mp4''] = Inl (External ''Error'') \<and>
   get_video_framerate audio_only_env (fs sample_world) [''video.mp4''] = Inl StopIteration"
proof -
  have unreadable:
    "ffmpeg_probe sample_env (lookup (fs sample_world) [''missing.mp4'']) = Inl (External ''Error'')"
    by code_simp
  have audio:
    "ffmpeg_probe audio_only_env (lookup (fs sample_world) [''video.mp4'']) =
       Inr [[(''codec_type'', ''audio'')]]"
    by code_simp
  have "get_video_framerate sample_env (fs sample_world) [''missing.mp4''] = Inl (External ''Error'')"
    using prober_failures [of sample_env "fs sample_world" "[''missing.mp4'']"] unreadable
    by blast
  moreover have
    "get_video_framerate audio_only_env (fs sample_world) [''video.mp4''] = Inl StopIteration"
    using prober_failures [of audio_only_env "fs sample_world" "[''video.mp4'']"] audio
    by simp
  ultimately show ?thesis
    by simp
qed

theorem probe_error_class_counterexample:
  "get_video_framerate audio_only_env (fs sample_world) [''video.mp4''] = Inl StopIteration \<and>
   exn_class StopIteration \<noteq> ''ProbeError''"
proof -
  have "get_video_framerate audio_only_env (fs sample_world) [''video.mp4''] = Inl StopIteration"
    by code_simp
  then show ?thesis
    by simp
qed

subsection \<open>\<open>rebuild_video\<close>\<close>

lemma rebuild_video_cases:
  assumes "rebuild_video E fd op fa w = (r, w')"
  obtains
    (mkdir_fails) e where
      "mkdir_parents (butlast op) (fs w) = Inl e" "r = Inl e"
      "trace w' = trace w @ [Mkdir (butlast op)]" "fs w' = fs w"
  | (encode_fails) f1 e where
      "mkdir_parents (butlast op) (fs w) = Inr f1"
      "ffmpeg_encode E (dir_files f1 fd) (given_framerate fa) = Inl e" "r = Inl e"
      "trace w' = trace w @ [Mkdir (butlast op), FfmpegEncode fd op (given_framerate fa)]"
      "fs w' = f1"
  | (encoded) f1 video where
      "mkdir_parents (butlast op) (fs w) = Inr f1"
      "ffmpeg_encode E (dir_files f1 fd) (given_framerate fa) = Inr video" "r = Inr ()"
      "trace w' = trace w @ [Mkdir (butlast op), FfmpegEncode fd op (given_framerate fa)]"
      "fs w' = put_file op video f1"
proof (cases "mkdir_parents (butlast op) (fs w)")
  case (Inl e)
  then show ?thesis
    using assms mkdir_fails by (auto simp: rebuild_video_def Let_def record_event_def)
next
  case mk: (Inr f1)
  show ?thesis
  proof (cases "ffmpeg_encode E (dir_files f1 fd) (given_framerate fa)")
    case (Inl e)
    then show ?thesis
      using assms mk encode_fails [of f1 e]
      by (auto simp: rebuild_video_def Let_def record_event_def given_framerate_def)
  next
    case (Inr video)
    then show ?thesis
      using assms mk encoded [of f1 video]
      by (auto simp: rebuild_video_def Let_def record_event_def given_framerate_def)
  qed
qed

text \<open>
  C8 (as amended). \<open>rebuild_video\<close> checks nothing about the frames itself. It fails
  exactly when the parent directory of the output cannot be made or ffmpeg's run fails,
  and then with that exception unchanged: for a frames directory without files, on which
  ffmpeg's run fails, with the exception of the run (ffmpeg.Error), the output not
  written. The module defines and raises no EncodingError.
\<close>

theorem rebuild_video_failures:
  "(fst (rebuild_video E frames_dir output_path framerate_arg w) = Inl e) =
     (mkdir_parents (butlast output_path) (fs w) = Inl e \<or>
      (\<exists>f1. mkdir_parents (butlast output_path) (fs w) = Inr f1 \<and>
         ffmpeg_encode E (dir_files f1 frames_dir) (given_framerate framerate_arg) = Inl e)) \<and>
   (\<forall>f1. mkdir_parents (butlast output_path) (fs w) = Inr f1 \<and> dir_files f1 frames_dir = [] \<and>
      ffmpeg_encode E [] (given_framerate framerate_arg) = Inl e \<longrightarrow>
      rebuild_video E frames_dir output_path framerate_arg w =
        (Inl e, \<lparr>fs = f1, trace = trace w @
           [Mkdir (butlast output_path),
            FfmpegEncode frames_dir output_path (given_framerate framerate_arg)]\<rparr>))"
proof (cases "rebuild_video E frames_dir output_path framerate_arg w")
  case (Pair r w')
  then show ?thesis
    by (cases rule: rebuild_video_cases) (auto simp: Pair)
qed

theorem rebuild_video_failures_witness:
  "fst (rebuild_video sample_env [''in''] [''out'', ''result.mp4''] None empty_world) =
     Inl (External ''Error'')"
proof -
  have mk: "mkdir_parents (butlast [''out'', ''result.mp4'']) (fs empty_world) =
      Inr (fs empty_world @ [([''out''], Dir)])"
    by code_simp
  have nf: "dir_files (fs empty_world @ [([''out''], Dir)]) [''in''] = []"
    by code_simp
  have enc: "ffmpeg_encode sample_env [] (given_framerate None) = Inl (External ''Error'')"
    by code_simp
  from rebuild_video_failures [of sample_env "[''in'']" "[''out'', ''result.mp4'']" None
      empty_world "External ''Error''", THEN conjunct2, rule_format, of "fs empty_world @ [([''out''], Dir)]"]
    mk nf enc
  show ?thesis
    by simp
qed

theorem encoding_error_class_counterexample:
  "fst (rebuild_video sample_env [''in''] [''out'', ''result.mp4''] None empty_world) =
     Inl (External ''Error'') \<and>
   exn_class (External ''Error'') \<noteq> ''EncodingError''"
proof -
  have "fst (rebuild_video sample_env [''in''] [''out'', ''result.mp4''] None empty_world) =
     Inl (External ''Error'')"
    by code_simp
  then show ?thesis
    by simp
qed

subsection \<open>The stages of the pipeline\<close>

lemma encode_framerate_events:
  "encode_framerate (FfmpegEncode d out fr) = Some fr" "encode_framerate (Mkdir p) = None"
  "encode_framerate (Glob p) = None" "encode_framerate (NewSession m) = None"
  "encode_framerate (Probe p) = None" "encode_framerate (FfmpegExtract p q) = None"
  "encode_framerate (Mkdtemp p) = None" "encode_framerate (Cleanup p) = None"
  by (simp_all add: encode_framerate_def)

lemmas encode_simps = encode_framerates_def map_filter_append encode_framerate_events

lemma frame_work_no_encode: "list_all frame_work evs \<Longrightarrow> encode_framerates evs = []"
  by (induction evs)
    (auto simp: encode_framerates_def encode_framerate_def frame_work_def split: event.splits)

lemma extract_frames_trace:
  assumes "extract_frames E video_path frames_dir w = (r, w')"
  shows "\<exists>evs. trace w' = trace w @ evs \<and> encode_framerates evs = [] \<and>
    (\<forall>fr. r = Inr fr \<longrightarrow> (\<exists>fsys. get_video_framerate E fsys video_path = Inr fr))"
proof (cases "mkdir_parents frames_dir (fs w)")
  case (Inl e)
  then show ?thesis
    using assms by (auto simp: extract_frames_def Let_def record_event_def encode_simps)
next
  case mk: (Inr f1)
  show ?thesis
  proof (cases "get_video_framerate E f1 video_path")
    case (Inl e)
    then show ?thesis
      using assms mk by (auto simp: extract_frames_def Let_def record_event_def encode_simps)
  next
    case (Inr fr)
    then show ?thesis
      using assms mk
      by (auto simp: extract_frames_def Let_def record_event_def encode_simps
          split: prod.splits option.splits)
  qed
qed

lemma remove_background_trace:
  assumes "remove_background_from_frames E fd od m cb w = (r, w')"
  shows "\<exists>evs. trace w' = trace w @ evs \<and> encode_framerates evs = []"
  using assms
proof (cases rule: remove_background_cases)
  case (loop f1 s w2)
  from frame_loop_trace [OF loop(5)] obtain evs where
    "trace w' = trace w2 @ evs" "list_all frame_work evs"
    by blast
  then show ?thesis
    using loop(3) frame_work_no_encode by (simp add: encode_simps)
qed (simp_all add: encode_simps)

lemma rebuild_video_trace:
  assumes "rebuild_video E fd op fa w = (r, w')"
  shows "\<exists>evs. trace w' = trace w @ evs \<and>
    (encode_framerates evs = [] \<or> encode_framerates evs = [given_framerate fa])"
  using assms
  by (cases rule: rebuild_video_cases) (simp_all add: encode_simps)

lemma pipeline_stages_trace:
  assumes "pipeline_stages E tmp ip op m cb w = (r, w')"
  shows "\<exists>evs. trace w' = trace w @ evs \<and>
    (encode_framerates evs = [] \<or>
     (\<exists>fsys fr. get_video_framerate E fsys ip = Inr fr \<and> encode_framerates evs = [fr]))"
proof (cases "extract_frames E ip (tmp @ [''frames'']) w")
  case ex: (Pair r1 w1)
  from extract_frames_trace [OF ex] obtain evs1 where
    e1: "trace w1 = trace w @ evs1" "encode_framerates evs1 = []"
      "\<forall>fr. r1 = Inr fr \<longrightarrow> (\<exists>fsys. get_video_framerate E fsys ip = Inr fr)"
    by blast
  show ?thesis
  proof (cases r1)
    case (Inl e)
    then show ?thesis
      using assms ex e1 by (auto simp: pipeline_stages_def)
  next
    case fr: (Inr framerate)
    show ?thesis
    proof (cases "remove_background_from_frames E (tmp @ [''frames'']) (tmp @ [''output_frames''])
        m cb w1")
      case rb: (Pair r2 w2)
      from remove_background_trace [OF rb] obtain evs2 where
        e2: "trace w2 = trace w1 @ evs2" "encode_framerates evs2 = []"
        by blast
      show ?thesis
      proof (cases r2)
        case (Inl e)
        then show ?thesis
          using assms ex fr rb e1 e2 by (auto simp: pipeline_stages_def encode_simps)
      next
        case (Inr u)
        then have "rebuild_video E (tmp @ [''output_frames'']) op (Some framerate) w2 = (r, w')"
          using assms ex fr rb by (simp add: pipeline_stages_def)
        from rebuild_video_trace [OF this] obtain evs3 where
          e3: "trace w' = trace w2 @ evs3"
            "encode_framerates evs3 = [] \<or> encode_framerates evs3 = [framerate]"
          by (auto simp: given_framerate_def)
        have "trace w' = trace w @ (evs1 @ evs2 @ evs3)"
          using e1(1) e2(1) e3(1) by simp
        moreover have "encode_framerates (evs1 @ evs2 @ evs3) = encode_framerates evs3"
          using e1(2) e2(2) by (simp add: encode_simps)
        ultimately show ?thesis
          using e3(2) e1(3) fr by metis
      qed
    qed
  qed
qed

subsection \<open>\<open>process_video\<close>\<close>

lemma mkdtemp_Inr:
  "mkdtemp d prefix cs f = Inr (tmp, f0) \<Longrightarrow>
   tmp \<noteq> [] \<and> lookup f tmp = None \<and> f0 = f @ [(tmp, Dir)] \<and> is_dir f0 tmp"
proof (induction cs)
  case Nil
  then show ?case by simp
next
  case (Cons c cs)
  then show ?case
    by (auto simp: Let_def is_dir_def lookup_def map_add_def split: if_splits)
qed

lemma process_video_no_workspace:
  assumes "process_video E ip op m cb w = (r, w')"
    and "mkdtemp (gettempdir E) ''rekrea_rembg_'' (candidate_names E) (fs w) = Inl e"
  shows "r = Inl e \<and> w' = w"
  using assms by (simp add: process_video_def)

lemma process_video_workspace:
  assumes "process_video E ip op m cb w = (r, w')"
    and "mkdtemp (gettempdir E) ''rekrea_rembg_'' (candidate_names E) (fs w) = Inr (tmp, f0)"
    and "pipeline_stages E tmp ip op m cb (record_event (Mkdtemp tmp) (w\<lparr>fs := f0\<rparr>)) = (rb, wb)"
  shows "r = rb \<and> trace w' = trace wb @ [Cleanup tmp] \<and> fs w' = rmtree tmp (fs wb)"
  using assms by (auto simp: process_video_def Let_def record_event_def)

lemma pipeline_stages_failure:
  "(fst (pipeline_stages E tmp ip op m cb w) = Inl e) = stage_fails E tmp ip op m cb w e"
proof (cases "extract_frames E ip (tmp @ [''frames'']) w")
  case ex: (Pair r1 w1)
  show ?thesis
  proof (cases r1)
    case (Inl e1)
    then show ?thesis
      using ex by (simp add: pipeline_stages_def stage_fails_def Let_def)
  next
    case fr: (Inr framerate)
    show ?thesis
    proof (cases "remove_background_from_frames E (tmp @ [''frames''])
        (tmp @ [''output_frames'']) m cb w1")
      case rb: (Pair r2 w2)
      show ?thesis
        using ex fr rb by (cases r2) (simp_all add: pipeline_stages_def stage_fails_def Let_def)
    qed
  qed
qed

text \<open>
  C1. The temporary workspace of \<open>process_video\<close>. When no workspace can be made the
  call fails at once and changes nothing. Otherwise the workspace is a directory that did
  not exist before; whatever the stages do, and whichever of them fails, the call ends by
  cleaning up: nothing is left at or below the workspace path, the cleanup is the last
  operation of the call, and the caller gets the result of the stages, so the error of a
  failing stage, in the world in which the workspace is already removed.
\<close>

theorem workspace_always_removed:
  assumes "process_video E input_path output_path model_name cb w = (r, w')"
  shows "(\<forall>e. mkdtemp (gettempdir E) ''rekrea_rembg_'' (candidate_names E) (fs w) = Inl e \<longrightarrow>
       r = Inl e \<and> w' = w) \<and>
    (\<forall>tmp f0. mkdtemp (gettempdir E) ''rekrea_rembg_'' (candidate_names E) (fs w) = Inr (tmp, f0)
       \<longrightarrow>
       lookup (fs w) tmp = None \<and> is_dir f0 tmp \<and>
       (\<forall>p. take (length tmp) p = tmp \<longrightarrow> lookup (fs w') p = None) \<and>
       last (trace w') = Cleanup tmp \<and>
       r = fst (pipeline_stages E tmp input_path output_path model_name cb
                 (record_event (Mkdtemp tmp) (w\<lparr>fs := f0\<rparr>))) \<and>
       (\<forall>e. stage_fails E tmp input_path output_path model_name cb
              (record_event (Mkdtemp tmp) (w\<lparr>fs := f0\<rparr>)) e \<longrightarrow> r = Inl e) \<and>
       (\<exists>evs. trace w' = trace w @ [Mkdtemp tmp] @ evs @ [Cleanup tmp]))"
proof (intro conjI allI impI)
  fix e
  assume "mkdtemp (gettempdir E) ''rekrea_rembg_'' (candidate_names E) (fs w) = Inl e"
  from process_video_no_workspace [OF assms this] show "r = Inl e" "w' = w"
    by simp_all
next
  fix tmp f0
  assume mk: "mkdtemp (gettempdir E) ''rekrea_rembg_'' (candidate_names E) (fs w) = Inr (tmp, f0)"
  let ?w0 = "record_event (Mkdtemp tmp) (w\<lparr>fs := f0\<rparr>)"
  obtain rb wb where st: "pipeline_stages E tmp input_path output_path model_name cb ?w0 = (rb, wb)"
    by (cases "pipeline_stages E tmp input_path output_path model_name cb ?w0")
  note pv = process_video_workspace [OF assms mk st]
  from mkdtemp_Inr [OF mk] have fresh: "tmp \<noteq> []" "lookup (fs w) tmp = None" "is_dir f0 tmp"
    by blast+
  show "lookup (fs w) tmp = None" "is_dir f0 tmp"
    by (rule fresh(2), rule fresh(3))
  show "last (trace w') = Cleanup tmp"
    using pv by simp
  show r: "r = fst (pipeline_stages E tmp input_path output_path model_name cb ?w0)"
    using pv st by simp
  show "r = Inl e" if "stage_fails E tmp input_path output_path model_name cb ?w0 e" for e
    using that r by (simp add: pipeline_stages_failure)
  show "lookup (fs w') p = None" if "take (length tmp) p = tmp" for p
    using pv fresh(1) that by (simp add: lookup_rmtree)
  from pipeline_stages_trace [OF st] obtain evs where "trace wb = trace ?w0 @ evs"
    by blast
  then have "trace w' = trace w @ [Mkdtemp tmp] @ evs @ [Cleanup tmp]"
    using pv by (simp add: record_event_def)
  then show "\<exists>evs. trace w' = trace w @ [Mkdtemp tmp] @ evs @ [Cleanup tmp]"
    by blast
qed

theorem workspace_always_removed_witness:
  "fst (process_video sample_env [''video.mp4''] [''results'', ''out.mp4''] ''not-a-real-model''
      None sample_world) = Inl ValueError \<and>
   lookup (fs (snd (process_video sample_env [''video.mp4''] [''results'', ''out.mp4'']
      ''not-a-real-model'' None sample_world))) [''tmp'', ''rekrea_rembg_abc'', ''frames''] = None \<and>
   last (trace (snd (process_video sample_env [''video.mp4''] [''results'', ''out.mp4'']
      ''not-a-real-model'' None sample_world))) = Cleanup [''tmp'', ''rekrea_rembg_abc''] \<and>
   process_video sample_env [''video.mp4''] [''results'', ''out.mp4''] ''u2net'' None fresh_world =
     (Inl FileNotFoundError, fresh_world)"
proof -
  let ?X = "process_video sample_env [''video.mp4''] [''results'', ''out.mp4'']
      ''not-a-real-model'' None sample_world"
  let ?Y = "process_video sample_env [''video.mp4''] [''results'', ''out.mp4''] ''u2net'' None
      fresh_world"
  let ?tmp = "[''tmp'', ''rekrea_rembg_abc'']"
  have mk: "mkdtemp (gettempdir sample_env) ''rekrea_rembg_'' (candidate_names sample_env)
      (fs sample_world) = Inr (?tmp, fs sample_world @ [(?tmp, Dir)])"
    by code_simp
  have st: "fst (pipeline_stages sample_env ?tmp [''video.mp4''] [''results'', ''out.mp4'']
      ''not-a-real-model'' None
      (record_event (Mkdtemp ?tmp) (sample_world\<lparr>fs := fs sample_world @ [(?tmp, Dir)]\<rparr>))) =
      Inl ValueError"
    by code_simp
  have "?X = (fst ?X, snd ?X)"
    by simp
  from workspace_always_removed [OF this, THEN conjunct2, rule_format, OF mk]
  have "(\<forall>p. take (length ?tmp) p = ?tmp \<longrightarrow> lookup (fs (snd ?X)) p = None)"
    and "last (trace (snd ?X)) = Cleanup ?tmp"
    and "fst ?X = fst (pipeline_stages sample_env ?tmp [''video.mp4''] [''results'', ''out.mp4'']
      ''not-a-real-model'' None
      (record_event (Mkdtemp ?tmp) (sample_world\<lparr>fs := fs sample_world @ [(?tmp, Dir)]\<rparr>)))"
    by blast+
  then have failing: "fst ?X = Inl ValueError"
      "lookup (fs (snd ?X)) [''tmp'', ''rekrea_rembg_abc'', ''frames''] = None"
      "last (trace (snd ?X)) = Cleanup ?tmp"
    using st by simp_all
  have no: "mkdtemp (gettempdir sample_env) ''rekrea_rembg_'' (candidate_names sample_env)
      (fs fresh_world) = Inl FileNotFoundError"
    by code_simp
  have "?Y = (fst ?Y, snd ?Y)"
    by simp
  from workspace_always_removed [OF this, THEN conjunct1, rule_format, OF no]
  have "?Y = (Inl FileNotFoundError, fresh_world)"
    by (metis prod.collapse)
  then show ?thesis
    using failing by simp
qed

lemma process_video_encode_framerates:
  assumes "process_video E ip op m cb w = (r, w')"
  shows "encode_framerates (new_events w w') = [] \<or>
    (\<exists>fsys fr. get_video_framerate E fsys ip = Inr fr \<and>
       encode_framerates (new_events w w') = [fr])"
proof (cases "mkdtemp (gettempdir E) ''rekrea_rembg_'' (candidate_names E) (fs w)")
  case (Inl e)
  from process_video_no_workspace [OF assms this] show ?thesis
    by (simp add: new_events_def encode_simps)
next
  case (Inr a)
  obtain tmp f0 where a: "a = (tmp, f0)"
    by (cases a)
  let ?w0 = "record_event (Mkdtemp tmp) (w\<lparr>fs := f0\<rparr>)"
  obtain rb wb where st: "pipeline_stages E tmp ip op m cb ?w0 = (rb, wb)"
    by (cases "pipeline_stages E tmp ip op m cb ?w0")
  note pv = process_video_workspace [OF assms Inr [unfolded a] st]
  from pipeline_stages_trace [OF st] obtain evs where
    evs: "trace wb = trace ?w0 @ evs"
      "encode_framerates evs = [] \<or>
       (\<exists>fsys fr. get_video_framerate E fsys ip = Inr fr \<and> encode_framerates evs = [fr])"
    by blast
  have "trace w' = trace w @ ([Mkdtemp tmp] @ evs @ [Cleanup tmp])"
    using pv evs(1) by (simp add: record_event_def)
  then have "new_events w w' = [Mkdtemp tmp] @ evs @ [Cleanup tmp]"
    by (rule new_events_append)
  then have "encode_framerates (new_events w w') = encode_framerates evs"
    by (simp add: encode_simps)
  then show ?thesis
    using evs(2) by simp
qed

text \<open>
  C9. The framerate of the reassembly. A call of \<open>rebuild_video\<close> without a framerate
  argument is the call with 30: it hands 30 to ffmpeg's encoding run, whatever the probe
  would report for any video. In \<open>process_video\<close> the encoding run, when it is
  reached, gets the framerate the prober returned for the input video.
\<close>

theorem omitted_framerate_is_30:
  "rebuild_video E frames_dir output_path None w =
     rebuild_video E frames_dir output_path (Some 30) w \<and>
   rebuild_video (E\<lparr>ffmpeg_probe := pr, py_int := pint\<rparr>) frames_dir output_path None w =
     rebuild_video E frames_dir output_path None w \<and>
   (\<forall>f1. mkdir_parents (butlast output_path) (fs w) = Inr f1 \<longrightarrow>
      encode_framerates (new_events w (snd (rebuild_video E frames_dir output_path None w)))
        = [30]) \<and>
   (\<forall>r w'. process_video E input_path output_path model_name cb w = (r, w') \<longrightarrow>
      encode_framerates (new_events w w') = [] \<or>
      (\<exists>fsys fr. get_video_framerate E fsys input_path = Inr fr \<and>
         encode_framerates (new_events w w') = [fr]))"
proof (intro conjI allI impI)
  show "rebuild_video E frames_dir output_path None w =
     rebuild_video E frames_dir output_path (Some 30) w"
    by (simp add: rebuild_video_def default_framerate_def)
  show "rebuild_video (E\<lparr>ffmpeg_probe := pr, py_int := pint\<rparr>) frames_dir output_path None w =
     rebuild_video E frames_dir output_path None w"
    by (simp add: rebuild_video_def Let_def split: sum.splits)
next
  fix f1
  assume mk: "mkdir_parents (butlast output_path) (fs w) = Inr f1"
  obtain r w' where rv: "rebuild_video E frames_dir output_path None w = (r, w')"
    by (cases "rebuild_video E frames_dir output_path None w")
  then have "encode_framerates (new_events w w') = [30]"
    by (cases rule: rebuild_video_cases)
      (use mk in \<open>simp_all add: new_events_append encode_simps given_framerate_def
          default_framerate_def\<close>)
  then show "encode_framerates
      (new_events w (snd (rebuild_video E frames_dir output_path None w))) = [30]"
    by (simp add: rv)
next
  fix r w'
  assume "process_video E input_path output_path model_name cb w = (r, w')"
  then show "encode_framerates (new_events w w') = [] \<or>
      (\<exists>fsys fr. get_video_framerate E fsys input_path = Inr fr \<and>
         encode_framerates (new_events w w') = [fr])"
    by (rule process_video_encode_framerates)
qed

theorem omitted_framerate_is_30_witness:
  "encode_framerates (new_events sample_world
     (snd (rebuild_video sample_env [''out''] [''results'', ''out.mp4''] None sample_world)))
     = [30] \<and>
   get_video_framerate sample_env (fs sample_world) [''video.mp4''] = Inr 25 \<and>
   encode_framerates (new_events sample_world
     (snd (process_video sample_env [''video.mp4''] [''results'', ''out.mp4''] ''u2net'' None
        sample_world))) = [25]"
proof -
  have mk: "mkdir_parents (butlast [''results'', ''out.mp4'']) (fs sample_world) =
      Inr (fs sample_world @ [([''results''], Dir)])"
    by code_simp
  have fr: "get_video_framerate sample_env (fs sample_world) [''video.mp4''] = Inr 25"
    by code_simp
  have pv: "encode_framerates (new_events sample_world
     (snd (process_video sample_env [''video.mp4''] [''results'', ''out.mp4''] ''u2net'' None
        sample_world))) = [25]"
    by code_simp
  from omitted_framerate_is_30 [of sample_env "[''out'']" "[''results'', ''out.mp4'']"
      sample_world, THEN conjunct2, THEN conjunct2, THEN conjunct1, rule_format, OF mk]
  show ?thesis
    using fr pv by simp
qed

end
